theory Spec2Isabelle
  imports Main "HOL-Library.Word" "HOL-Library.Sublist"
begin

section \<open>JavaScript values used by asset-utils.ts\<close>

text \<open>
  A JavaScript string is modelled as a \<^typ>\<open>string\<close>: the list of its code units, here
  restricted to code units below 256.  A value of type \<open>string | undefined\<close> is a
  \<^typ>\<open>string option\<close>, with \<open>None\<close> for \<open>undefined\<close>.
\<close>

text \<open>Truthiness of a \<open>string | undefined\<close> value: \<open>undefined\<close> and \<open>""\<close> are falsy.\<close>

definition truthy :: "string option \<Rightarrow> bool" where
  "truthy v = (case v of None \<Rightarrow> False | Some s \<Rightarrow> s \<noteq> [])"

text \<open>The operator \<open>a ?? b\<close>: \<open>b\<close> when \<open>a\<close> is \<open>undefined\<close>, else \<open>a\<close>.\<close>

definition nullish :: "'a option \<Rightarrow> 'a option \<Rightarrow> 'a option" where
  "nullish a b = (case a of None \<Rightarrow> b | Some x \<Rightarrow> Some x)"

text \<open>\<open>String.prototype.endsWith\<close> and \<open>String.prototype.startsWith\<close>.\<close>

definition endsWith :: "string \<Rightarrow> string \<Rightarrow> bool" where
  "endsWith s searchString =
     (length searchString \<le> length s \<and> drop (length s - length searchString) s = searchString)"

definition startsWith :: "string \<Rightarrow> string \<Rightarrow> bool" where
  "startsWith s searchString = (take (length searchString) s = searchString)"

text \<open>\<open>String.prototype.split\<close> with a separator of one character: the result is never empty.\<close>

fun split :: "char \<Rightarrow> string \<Rightarrow> string list" where
  "split sep [] = [[]]"
| "split sep (c # cs) =
     (if c = sep then [] # split sep cs
      else (case split sep cs of [] \<Rightarrow> [[c]] | x # xs \<Rightarrow> (c # x) # xs))"

text \<open>\<open>Array.prototype.at\<close> (a negative index counts from the end) and plain indexing
  \<open>xs[i]\<close>; both give \<open>undefined\<close> out of range.\<close>

definition at :: "'a list \<Rightarrow> int \<Rightarrow> 'a option" where
  "at xs i =
     (let k = (if i < 0 then int (length xs) + i else i)
      in if 0 \<le> k \<and> k < int (length xs) then Some (xs ! nat k) else None)"

definition index :: "'a list \<Rightarrow> int \<Rightarrow> 'a option" where
  "index xs i = (if 0 \<le> i \<and> i < int (length xs) then Some (xs ! nat i) else None)"

text \<open>\<open>Array.prototype.indexOf\<close>: the first index holding the value, \<open>-1\<close> when there is none.\<close>

fun indexOfFrom :: "int \<Rightarrow> 'a list \<Rightarrow> 'a \<Rightarrow> int" where
  "indexOfFrom k [] x = -1"
| "indexOfFrom k (y # ys) x = (if y = x then k else indexOfFrom (k + 1) ys x)"

definition indexOf :: "'a list \<Rightarrow> 'a \<Rightarrow> int" where
  "indexOf xs x = indexOfFrom 0 xs x"

section \<open>The extension table\<close>

text \<open>
  \<open>imageExtensionToMime\<close> is a \<open>Map\<close> built from seven pairs with distinct keys; it is
  kept as the list of its entries in insertion order.  \<open>keys()\<close> and \<open>values()\<close> list
  the components in that order and \<open>get\<close> finds the value of a key.
\<close>

definition imageExtensionToMime :: "(string \<times> string) list" where
  "imageExtensionToMime =
     [(''.gif'', ''image/gif''),
      (''.ico'', ''image/x-icon''),
      (''.jpeg'', ''image/jpeg''),
      (''.jpg'', ''image/jpeg''),
      (''.png'', ''image/png''),
      (''.svg'', ''image/svg+xml''),
      (''.webp'', ''image/webp'')]"

definition mapGet :: "(string \<times> string) list \<Rightarrow> string \<Rightarrow> string option" where
  "mapGet m k = map_of m k"

definition imageExtensions :: "string list" where
  "imageExtensions = map fst imageExtensionToMime"

definition imageMimeTypes :: "string list" where
  "imageMimeTypes = map snd imageExtensionToMime"

definition getImageExtensionForMimeType :: "string \<Rightarrow> string option" where
  "getImageExtensionForMimeType mimeType =
     (let idx = indexOf imageMimeTypes mimeType
      in if idx > -1 then index imageExtensions idx else None)"

section \<open>The regular expressions of getImageNameAndType\<close>

text \<open>
  The four regular expressions are written out as the matcher the engine runs: try
  every start position from left to right and return the first match.  None of them
  has the \<open>u\<close> flag, so \<open>\w\<close> and \<open>\b\<close> know the 63 ASCII word characters only, and
  under the \<open>i\<close> flag a code unit of 128 or more never equals an ASCII one.  All the
  literal characters of the patterns are ASCII, so comparing ASCII upper-case forms is
  the engine's comparison.
\<close>

definition isWordChar :: "char \<Rightarrow> bool" where
  "isWordChar c =
     (let n = (of_char c :: nat)
      in (48 \<le> n \<and> n \<le> 57) \<or> (65 \<le> n \<and> n \<le> 90) \<or> n = 95 \<or> (97 \<le> n \<and> n \<le> 122))"

definition canonicalize :: "char \<Rightarrow> char" where
  "canonicalize c =
     (let n = (of_char c :: nat) in if 97 \<le> n \<and> n \<le> 122 then char_of (n - 32) else c)"

text \<open>The assertion \<open>\b\<close> between the previous character (if any) and the rest of the input.\<close>

definition wordBoundary :: "char option \<Rightarrow> string \<Rightarrow> bool" where
  "wordBoundary prev rest =
     ((case prev of None \<Rightarrow> False | Some c \<Rightarrow> isWordChar c)
        \<noteq> (case rest of [] \<Rightarrow> False | c # _ \<Rightarrow> isWordChar c))"

text \<open>A literal under the \<open>i\<close> flag, at the start of the input: the input left after it.\<close>

fun matchLiteral :: "string \<Rightarrow> string \<Rightarrow> string option" where
  "matchLiteral [] s = Some s"
| "matchLiteral (p # ps) [] = None"
| "matchLiteral (p # ps) (c # cs) =
     (if canonicalize c = canonicalize p then matchLiteral ps cs else None)"

text \<open>The engine's outer loop: the matcher is tried at each position in turn, the
  end of the input included.\<close>

fun regexSearch :: "(char option \<Rightarrow> string \<Rightarrow> 'a option) \<Rightarrow> char option \<Rightarrow> string \<Rightarrow> 'a option" where
  "regexSearch m prev [] = m prev []"
| "regexSearch m prev (c # cs) =
     (case m prev (c # cs) of Some r \<Rightarrow> Some r | None \<Rightarrow> regexSearch m (Some c) cs)"

text \<open>\<open>/\bcontent-disposition\b/i\<close> and \<open>/\bcontent-type\b/i\<close> at one position.\<close>

definition keyAt :: "string \<Rightarrow> char option \<Rightarrow> string \<Rightarrow> unit option" where
  "keyAt lit prev s =
     (if wordBoundary prev s then
        (case matchLiteral lit s of
           None \<Rightarrow> None
         | Some rest \<Rightarrow>
             if wordBoundary (Some (s ! (length lit - 1))) rest then Some () else None)
      else None)"

definition contentDispositionKey_test :: "string \<Rightarrow> bool" where
  "contentDispositionKey_test key = (regexSearch (keyAt ''content-disposition'') None key \<noteq> None)"

definition contentTypeKey_test :: "string \<Rightarrow> bool" where
  "contentTypeKey_test key = (regexSearch (keyAt ''content-type'') None key \<noteq> None)"

text \<open>
  \<open>/\bfilename=(?:"([^"]+)"|([^;]+))/i\<close> at one position; the result holds the two
  capture groups.  The first alternative needs the opening quote, the longest run of
  characters other than a quote (not empty), and the closing quote; as the run is
  greedy and cannot cross a quote, no shorter run matches.  When it fails, the second
  alternative takes the longest run of characters other than a semicolon, not empty.
\<close>

abbreviation dquote :: char where
  "dquote \<equiv> CHR 0x22"

definition quotedName :: "string \<Rightarrow> string option" where
  "quotedName rest =
     (case rest of
        [] \<Rightarrow> None
      | c # r \<Rightarrow>
          if c = dquote \<and> takeWhile (\<lambda>x. x \<noteq> dquote) r \<noteq> [] \<and> dropWhile (\<lambda>x. x \<noteq> dquote) r \<noteq> []
          then Some (takeWhile (\<lambda>x. x \<noteq> dquote) r) else None)"

definition fileNameAt :: "char option \<Rightarrow> string \<Rightarrow> (string option \<times> string option) option" where
  "fileNameAt prev s =
     (if wordBoundary prev s then
        (case matchLiteral ''filename='' s of
           None \<Rightarrow> None
         | Some rest \<Rightarrow>
             (case quotedName rest of
                Some q \<Rightarrow> Some (Some q, None)
              | None \<Rightarrow>
                  (case takeWhile (\<lambda>x. x \<noteq> CHR '';'') rest of
                     [] \<Rightarrow> None
                   | t # ts \<Rightarrow> Some (None, Some (t # ts)))))
      else None)"

definition fileName_match :: "string \<Rightarrow> (string option \<times> string option) option" where
  "fileName_match v = regexSearch fileNameAt None v"

text \<open>
  \<open>/\b(image\/[\w-+]+)/i\<close> at one position.  In the class \<open>[\w-+]\<close> the hyphen after
  \<open>\w\<close> is a literal one, so the class holds the word characters, \<open>-\<close> and \<open>+\<close>.  The
  capture is the text as it stands in the input, in its own case.
\<close>

definition mimeTypeAt :: "char option \<Rightarrow> string \<Rightarrow> string option" where
  "mimeTypeAt prev s =
     (if wordBoundary prev s then
        (case matchLiteral ''image/'' s of
           None \<Rightarrow> None
         | Some rest \<Rightarrow>
             (case takeWhile (\<lambda>x. isWordChar x \<or> x = CHR ''-'' \<or> x = CHR ''+'') rest of
                [] \<Rightarrow> None
              | t # ts \<Rightarrow> Some (take 6 s @ t # ts)))
      else None)"

definition mimeType_match :: "string \<Rightarrow> string option" where
  "mimeType_match v = regexSearch mimeTypeAt None v"

section \<open>getImageNameAndType\<close>

text \<open>
  A \<open>URL\<close> object as far as the function reads it: the path name and the list of the
  query parameters in order.  \<open>searchParams.keys()\<close> yields the key of every entry,
  repeated keys included; \<open>searchParams.get\<close> gives the value of the first entry with
  that key.
\<close>

record URL =
  pathname :: string
  searchParams :: "(string \<times> string) list"

definition searchParams_keys :: "(string \<times> string) list \<Rightarrow> string list" where
  "searchParams_keys ps = map fst ps"

definition searchParams_get :: "(string \<times> string) list \<Rightarrow> string \<Rightarrow> string option" where
  "searchParams_get ps k = map_of ps k"

datatype StringOrURL = String string | Url URL

text \<open>\<open>fileName?.endsWith(ext)\<close>, read as a condition: \<open>undefined\<close> is falsy.\<close>

definition optEndsWith :: "string option \<Rightarrow> string \<Rightarrow> bool" where
  "optEndsWith fileName ext = (case fileName of None \<Rightarrow> False | Some f \<Rightarrow> endsWith f ext)"

text \<open>
  One turn of the loop over \<open>url.searchParams.keys()\<close> inside the callback of
  \<open>find\<close>.  The state is \<open>(fileName, mimeType, foundInSearchParams)\<close>; the first two are
  variables of the enclosing function and live on from one extension to the next.
  The value is \<open>searchParams.get(key)!\<close>: the key comes from the same parameters, so
  the lookup finds an entry (lemma \<open>searchParams_get_key\<close> below).
\<close>

definition paramStep ::
  "string \<Rightarrow> (string \<times> string) list \<Rightarrow> string option \<times> string option \<times> bool \<Rightarrow> string
     \<Rightarrow> string option \<times> string option \<times> bool" where
  "paramStep ext ps st key =
     (case st of (fileName, mimeType, foundInSearchParams) \<Rightarrow>
        let v = the (searchParams_get ps key) in
        if \<not> truthy fileName \<and> contentDispositionKey_test key then
          (case fileName_match v of
             None \<Rightarrow> (fileName, mimeType, foundInSearchParams)
           | Some (g1, g2) \<Rightarrow> (nullish (nullish g1 g2) (Some []), mimeType, foundInSearchParams))
        else if \<not> truthy mimeType \<and> contentTypeKey_test key then
          (case mimeType_match v of
             None \<Rightarrow> (fileName, mimeType, foundInSearchParams)
           | Some m \<Rightarrow> (fileName, Some m, foundInSearchParams))
        else if \<not> foundInSearchParams \<and> endsWith v ext then (fileName, mimeType, True)
        else (fileName, mimeType, foundInSearchParams))"

text \<open>The whole loop \<open>for (const key of url.searchParams.keys())\<close>.\<close>

definition searchParamsLoop ::
  "string \<Rightarrow> (string \<times> string) list \<Rightarrow> string option \<times> string option \<times> bool
     \<Rightarrow> string option \<times> string option \<times> bool" where
  "searchParamsLoop ext ps st = foldl (paramStep ext ps) st (searchParams_keys ps)"

text \<open>The callback of \<open>find\<close> for one extension: its verdict and the two variables after it.\<close>

definition findCallback ::
  "URL \<Rightarrow> string \<Rightarrow> string \<Rightarrow> string option \<times> string option
     \<Rightarrow> bool \<times> string option \<times> string option" where
  "findCallback url basename ext st =
     (case searchParamsLoop ext (searchParams url) (fst st, snd st, False) of
        (fileName, mimeType, foundInSearchParams) \<Rightarrow>
          if endsWith basename ext then
            (True, (if \<not> optEndsWith fileName ext then Some basename else fileName), mimeType)
          else
            (foundInSearchParams \<or> optEndsWith fileName ext \<or> mimeType = mapGet imageExtensionToMime ext,
             fileName, mimeType))"

text \<open>\<open>Array.prototype.find\<close> with that callback: the first extension it accepts, and
  the two variables as the last call left them.\<close>

fun findExtension ::
  "URL \<Rightarrow> string \<Rightarrow> string list \<Rightarrow> string option \<times> string option
     \<Rightarrow> string option \<times> string option \<times> string option" where
  "findExtension url basename [] st = (None, fst st, snd st)"
| "findExtension url basename (ext # exts) st =
     (case findCallback url basename ext st of
        (found, st') \<Rightarrow> if found then (Some ext, fst st', snd st') else findExtension url basename exts st')"

text \<open>\<open>url.pathname.split("/").at(-1) ?? ""\<close>.\<close>

definition basenameOf :: "URL \<Rightarrow> string" where
  "basenameOf url = (case at (split CHR ''/'' (pathname url)) (-1) of None \<Rightarrow> [] | Some b \<Rightarrow> b)"

text \<open>The scan of a structured URL: \<open>(extension, fileName, mimeType)\<close> after \<open>find\<close>.\<close>

definition scanURL :: "URL \<Rightarrow> string option \<times> string option \<times> string option" where
  "scanURL url = findExtension url (basenameOf url) imageExtensions (None, None)"

text \<open>A value in a template literal: \<open>undefined\<close> prints as the word.\<close>

definition templateString :: "string option \<Rightarrow> string" where
  "templateString v = (case v of None \<Rightarrow> ''undefined'' | Some s \<Rightarrow> s)"

text \<open>
  \<open>getImageNameAndType(url, defaultExtension)\<close>.  The first argument is the value the
  call to \<open>nanoid()\<close> returns, should the function make it.  The result is the pair
  \<open>[fileName, mimeType]\<close>.
\<close>

definition getImageNameAndType ::
  "string \<Rightarrow> StringOrURL \<Rightarrow> string option \<Rightarrow> string option \<times> string option" where
  "getImageNameAndType nanoid url defaultExtension =
     (case url of
        String s \<Rightarrow>
          (let extension = nullish (find (\<lambda>ext. endsWith s ext) imageExtensions) defaultExtension
           in if truthy extension then (Some s, mapGet imageExtensionToMime (the extension))
              else (None, None))
      | Url u \<Rightarrow>
          (case scanURL u of
             (found, fileName, mimeType) \<Rightarrow>
               let extension = nullish found defaultExtension;
                   impliedMimeType =
                     (if truthy extension then mapGet imageExtensionToMime (the extension) else extension);
                   mimeType' = (if truthy impliedMimeType then impliedMimeType else mimeType)
               in if truthy mimeType'
                  then (Some (case fileName of
                                None \<Rightarrow> nanoid @ ''.'' @ templateString extension
                              | Some f \<Rightarrow> f),
                        mimeType')
                  else (None, None)))"

section \<open>getImageName and getImageType\<close>

text \<open>A \<open>File\<close> as far as these functions read it: its name and its type.\<close>

record File =
  name :: string
  type' :: string

datatype FileOrStringOrURL = FromFile File | NotFile StringOrURL

definition getImageName :: "string \<Rightarrow> FileOrStringOrURL \<Rightarrow> string option" where
  "getImageName nanoid file =
     (case file of
        FromFile f \<Rightarrow> Some (name f)
      | NotFile u \<Rightarrow> fst (getImageNameAndType nanoid u None))"

definition getImageType :: "string \<Rightarrow> FileOrStringOrURL \<Rightarrow> string option" where
  "getImageType nanoid file =
     (case file of
        FromFile f \<Rightarrow> Some (type' f)
      | NotFile u \<Rightarrow> snd (getImageNameAndType nanoid u None))"

section \<open>uploadingFileDataToAsset\<close>

text \<open>
  A JavaScript number, as far as the assets hold one: an integer or \<open>NaN\<close>.
\<close>

datatype number = Number int | NaN

datatype AssetMeta =
    ImageMeta (width: number) (height: number)
  | FontMeta (family: string) (style: string) (weight: number)

text \<open>
  \<open>ImageAsset\<close> and \<open>FontAsset\<close> share every field but \<open>meta\<close>; \<open>format\<close> holds what
  \<open>mimeType.split("/")[1]\<close> gives, which JavaScript allows to be \<open>undefined\<close>.
\<close>

record Asset =
  id' :: string
  name' :: string
  format :: "string option"
  type'' :: string
  description :: string
  createdAt :: string
  projectId :: string
  size' :: number
  meta :: AssetMeta

text \<open>
  Modelled from the spec: the type \<open>UploadingFileData\<close> is declared in
  \<open>~/shared/nano-states\<close>, which is not among the sources.  It is a record with a
  discriminator \<open>source\<close>, \<open>"file"\<close> or \<open>"url"\<close>, that selects between a \<open>file\<close> and a
  \<open>url\<close> string, with an \<open>assetId\<close> and an \<open>objectURL\<close>.
\<close>

datatype UploadingFileData =
    SourceFile (file': File) (assetId: string) (objectURL: string)
  | SourceUrl (url: string) (assetId: string) (objectURL: string)

text \<open>What a call can throw or a promise can be rejected with.\<close>

datatype error = TypeError string | DOMException string

text \<open>
  \<open>new URL(fileData.url)\<close> is the platform's parser, a parameter here: it gives the
  structured URL, or \<open>None\<close> where the constructor throws a \<open>TypeError\<close>.
\<close>

definition resolveMimeType ::
  "(string \<Rightarrow> URL option) \<Rightarrow> string \<Rightarrow> UploadingFileData \<Rightarrow> error + string" where
  "resolveMimeType newURL nanoid fileData =
     (case (case fileData of
              SourceFile f _ _ \<Rightarrow> Inr (FromFile f)
            | SourceUrl u _ _ \<Rightarrow>
                (case newURL u of
                   None \<Rightarrow> Inl (TypeError ''Invalid URL'')
                 | Some parsed \<Rightarrow> Inr (NotFile (Url parsed)))) of
        Inl e \<Rightarrow> Inl e
      | Inr arg \<Rightarrow>
          Inr (case getImageType nanoid arg of None \<Rightarrow> ''image/png'' | Some t \<Rightarrow> t))"

definition uploadingFileDataToAsset ::
  "(string \<Rightarrow> URL option) \<Rightarrow> string \<Rightarrow> UploadingFileData \<Rightarrow> error + Asset" where
  "uploadingFileDataToAsset newURL nanoid fileData =
     (case resolveMimeType newURL nanoid fileData of
        Inl e \<Rightarrow> Inl e
      | Inr mimeType \<Rightarrow>
          let format = index (split CHR ''/'' mimeType) 1 in
          if startsWith mimeType ''image/'' then
            Inr \<lparr>id' = assetId fileData, name' = objectURL fileData, format = format,
                 type'' = ''image'', description = [], createdAt = [], projectId = [],
                 size' = Number 0, meta = ImageMeta NaN NaN\<rparr>
          else
            Inr \<lparr>id' = assetId fileData, name' = objectURL fileData, format = Some ''woff2'',
                 type'' = ''font'', description = [], createdAt = [], projectId = [],
                 size' = Number 0,
                 meta = FontMeta ''system'' ''normal'' (Number 400)\<rparr>)"

section \<open>bufferToHex\<close>

type_synonym byte = "8 word"

definition hexDigit :: "nat \<Rightarrow> char" where
  "hexDigit n = ''0123456789abcdef'' ! n"

text \<open>\<open>Number.prototype.toString(16)\<close> on a natural number.\<close>

function toString16 :: "nat \<Rightarrow> string" where
  "toString16 n = (if n < 16 then [hexDigit n] else toString16 (n div 16) @ [hexDigit (n mod 16)])"
  by pat_completeness auto
termination
  by (relation "measure id") auto

declare toString16.simps [simp del]

text \<open>\<open>String.prototype.padStart\<close>: the padding string is repeated and cut to the
  missing length; an empty padding string leaves the text as it is.\<close>

definition padStart :: "string \<Rightarrow> nat \<Rightarrow> string \<Rightarrow> string" where
  "padStart s targetLength padString =
     (if targetLength \<le> length s \<or> padString = [] then s
      else take (targetLength - length s)
             (concat (replicate (targetLength - length s) padString)) @ s)"

text \<open>\<open>Array.from(byteArray, f).join("")\<close>.\<close>

definition bufferToHex :: "byte list \<Rightarrow> string" where
  "bufferToHex buffer = concat (map (\<lambda>byte. padStart (toString16 (unat byte)) 2 ''0'') buffer)"

section \<open>The platform's digest and encoder\<close>

text \<open>
  \<open>TextEncoder.encode\<close> on a string of code units below 256: UTF-8 writes a code unit
  below 128 as one byte and the others as two.
\<close>

definition utf8 :: "char \<Rightarrow> byte list" where
  "utf8 c =
     (let n = (of_char c :: nat)
      in if n < 128 then [of_nat n] else [of_nat (192 + n div 64), of_nat (128 + n mod 64)])"

definition TextEncoder_encode :: "string \<Rightarrow> byte list" where
  "TextEncoder_encode s = concat (map utf8 s)"

text \<open>
  \<open>crypto.subtle.digest("SHA-256", data)\<close> is SHA-256 as FIPS 180-4 defines it, on
  32-bit words: the message is padded to whole blocks of 64 bytes, and each block is
  run through the schedule of 64 words and the 64 rounds of the compression function.
\<close>

definition K256 :: "32 word list" where
  "K256 =
     [1116352408, 1899447441, 3049323471, 3921009573, 961987163, 1508970993,
      2453635748, 2870763221, 3624381080, 310598401, 607225278, 1426881987,
      1925078388, 2162078206, 2614888103, 3248222580, 3835390401, 4022224774,
      264347078, 604807628, 770255983, 1249150122, 1555081692, 1996064986,
      2554220882, 2821834349, 2952996808, 3210313671, 3336571891, 3584528711,
      113926993, 338241895, 666307205, 773529912, 1294757372, 1396182291,
      1695183700, 1986661051, 2177026350, 2456956037, 2730485921, 2820302411,
      3259730800, 3345764771, 3516065817, 3600352804, 4094571909, 275423344,
      430227734, 506948616, 659060556, 883997877, 958139571, 1322822218,
      1537002063, 1747873779, 1955562222, 2024104815, 2227730452, 2361852424,
      2428436474, 2756734187, 3204031479, 3329325298]"

type_synonym hash256 =
  "32 word \<times> 32 word \<times> 32 word \<times> 32 word \<times> 32 word \<times> 32 word \<times> 32 word \<times> 32 word"

definition initialHash :: hash256 where
  "initialHash =
     (1779033703, 3144134277, 1013904242, 2773480762,
      1359893119, 2600822924, 528734635, 1541459225)"

definition rotr :: "nat \<Rightarrow> 32 word \<Rightarrow> 32 word" where
  "rotr n x = or (drop_bit n x) (push_bit (32 - n) x)"

definition Ch :: "32 word \<Rightarrow> 32 word \<Rightarrow> 32 word \<Rightarrow> 32 word" where
  "Ch x y z = xor (and x y) (and (not x) z)"

definition Maj :: "32 word \<Rightarrow> 32 word \<Rightarrow> 32 word \<Rightarrow> 32 word" where
  "Maj x y z = xor (xor (and x y) (and x z)) (and y z)"

definition bigSigma0 :: "32 word \<Rightarrow> 32 word" where
  "bigSigma0 x = xor (xor (rotr 2 x) (rotr 13 x)) (rotr 22 x)"

definition bigSigma1 :: "32 word \<Rightarrow> 32 word" where
  "bigSigma1 x = xor (xor (rotr 6 x) (rotr 11 x)) (rotr 25 x)"

definition smallSigma0 :: "32 word \<Rightarrow> 32 word" where
  "smallSigma0 x = xor (xor (rotr 7 x) (rotr 18 x)) (drop_bit 3 x)"

definition smallSigma1 :: "32 word \<Rightarrow> 32 word" where
  "smallSigma1 x = xor (xor (rotr 17 x) (rotr 19 x)) (drop_bit 10 x)"

text \<open>Padding: the byte \<open>0x80\<close>, zero bytes up to 56 modulo 64, and the length of the
  message in bits as eight bytes, the most significant first.\<close>

definition lengthBytes :: "64 word \<Rightarrow> byte list" where
  "lengthBytes bits = map (\<lambda>i. ucast (drop_bit (8 * (7 - i)) bits)) [0..<8]"

definition pad :: "byte list \<Rightarrow> byte list" where
  "pad msg =
     msg @ [128] @ replicate ((64 - (length msg + 9) mod 64) mod 64) 0
       @ lengthBytes (8 * of_nat (length msg))"

primrec blocksOf :: "nat \<Rightarrow> byte list \<Rightarrow> byte list list" where
  "blocksOf 0 bs = []"
| "blocksOf (Suc n) bs = take 64 bs # blocksOf n (drop 64 bs)"

text \<open>The 32-bit word of four bytes, the most significant first, and back.\<close>

definition wordOfBytes :: "byte list \<Rightarrow> 32 word" where
  "wordOfBytes bs = foldl (\<lambda>w b. or (push_bit 8 w) (ucast b)) 0 bs"

definition bytesOfWord :: "32 word \<Rightarrow> byte list" where
  "bytesOfWord w = [ucast (drop_bit 24 w), ucast (drop_bit 16 w), ucast (drop_bit 8 w), ucast w]"

primrec wordsOf :: "nat \<Rightarrow> byte list \<Rightarrow> 32 word list" where
  "wordsOf 0 bs = []"
| "wordsOf (Suc n) bs = wordOfBytes (take 4 bs) # wordsOf n (drop 4 bs)"

text \<open>The message schedule: \<open>n\<close> more words after the ones at hand.\<close>

primrec schedule :: "nat \<Rightarrow> 32 word list \<Rightarrow> 32 word list" where
  "schedule 0 w = w"
| "schedule (Suc n) w =
     schedule n
       (w @ [smallSigma1 (w ! (length w - 2)) + w ! (length w - 7)
              + smallSigma0 (w ! (length w - 15)) + w ! (length w - 16)])"

definition round256 :: "hash256 \<Rightarrow> 32 word \<times> 32 word \<Rightarrow> hash256" where
  "round256 v kw =
     (case v of (a, b, c, d, e, f, g, h) \<Rightarrow>
        let t1 = h + bigSigma1 e + Ch e f g + fst kw + snd kw;
            t2 = bigSigma0 a + Maj a b c
        in (t1 + t2, a, b, c, d + t1, e, f, g))"

definition addHash :: "hash256 \<Rightarrow> hash256 \<Rightarrow> hash256" where
  "addHash u v =
     (case u of (a, b, c, d, e, f, g, h) \<Rightarrow>
      case v of (a', b', c', d', e', f', g', h') \<Rightarrow>
        (a + a', b + b', c + c', d + d', e + e', f + f', g + g', h + h'))"

definition compress :: "hash256 \<Rightarrow> byte list \<Rightarrow> hash256" where
  "compress hash block =
     addHash hash (foldl round256 hash (zip K256 (schedule 48 (wordsOf 16 block))))"

definition digest_SHA256 :: "byte list \<Rightarrow> byte list" where
  "digest_SHA256 msg =
     (case foldl compress initialHash (blocksOf (length (pad msg) div 64) (pad msg)) of
        (a, b, c, d, e, f, g, h) \<Rightarrow> concat (map bytesOfWord [a, b, c, d, e, f, g, h]))"

section \<open>getSha256Hash and getSha256HashOfFile\<close>

text \<open>The value the promise of \<open>getSha256Hash\<close> is fulfilled with.\<close>

definition getSha256Hash :: "string \<Rightarrow> string" where
  "getSha256Hash data = bufferToHex (digest_SHA256 (TextEncoder_encode data))"

text \<open>
  A \<open>FileReader\<close> ends a read with one of two events: \<open>load\<close>, with the bytes in
  \<open>reader.result\<close>, or \<open>error\<close>, with \<open>reader.error\<close>.  The platform is a function that
  says how the read of a file ends, given how many reads were started before; the
  functions below return their outcome (\<open>Inl\<close> for a rejected promise) and the count
  of reads started.
\<close>

datatype FileReaderEvent = Load "byte list" | Error error

definition readFileAsArrayBuffer ::
  "(nat \<Rightarrow> File \<Rightarrow> FileReaderEvent) \<Rightarrow> File \<Rightarrow> nat \<Rightarrow> (error + byte list) \<times> nat" where
  "readFileAsArrayBuffer readAsArrayBuffer file reads =
     (case readAsArrayBuffer reads file of
        Load result \<Rightarrow> (Inr result, Suc reads)
      | Error e \<Rightarrow> (Inl e, Suc reads))"

definition getSha256HashOfFile ::
  "(nat \<Rightarrow> File \<Rightarrow> FileReaderEvent) \<Rightarrow> File \<Rightarrow> nat \<Rightarrow> (error + string) \<times> nat" where
  "getSha256HashOfFile readAsArrayBuffer file reads =
     (case readFileAsArrayBuffer readAsArrayBuffer file reads of
        (Inl e, reads') \<Rightarrow> (Inl e, reads')
      | (Inr arrayBuffer, reads') \<Rightarrow> (Inr (bufferToHex (digest_SHA256 arrayBuffer)), reads'))"

section \<open>Facts about the table and the string functions\<close>

lemma imageExtensions_eq:
  "imageExtensions = [''.gif'', ''.ico'', ''.jpeg'', ''.jpg'', ''.png'', ''.svg'', ''.webp'']"
  by (simp add: imageExtensions_def imageExtensionToMime_def)

lemma mapGet_imageExtension:
  assumes "ext \<in> set imageExtensions"
  shows "\<exists>m. mapGet imageExtensionToMime ext = Some m \<and> m \<noteq> [] \<and> m \<in> set imageMimeTypes"
  using assms
  by (auto simp: imageExtensions_eq mapGet_def imageMimeTypes_def imageExtensionToMime_def)

lemma imageExtension_nonempty: "ext \<in> set imageExtensions \<Longrightarrow> ext \<noteq> []"
  by (auto simp: imageExtensions_eq)

lemma endsWith_iff: "endsWith s e \<longleftrightarrow> (\<exists>p. s = p @ e)"
proof
  assume "endsWith s e"
  then have "s = take (length s - length e) s @ e"
    by (metis append_take_drop_id endsWith_def)
  then show "\<exists>p. s = p @ e" ..
next
  assume "\<exists>p. s = p @ e"
  then show "endsWith s e" by (auto simp: endsWith_def)
qed

lemma endsWith_suffix: "endsWith s e \<longleftrightarrow> suffix e s"
  by (simp add: endsWith_iff suffix_def)

lemma imageExtension_no_suffix:
  "a \<in> set imageExtensions \<Longrightarrow> b \<in> set imageExtensions \<Longrightarrow> endsWith a b \<Longrightarrow> a = b"
  by (auto simp: imageExtensions_eq endsWith_def)

text \<open>A string ends with at most one extension of the table, so \<open>find\<close> meets no other first.\<close>

lemma find_endsWith_unique:
  assumes "ext \<in> set imageExtensions" and "endsWith s ext"
  shows "find (\<lambda>e. endsWith s e) imageExtensions = Some ext"
proof -
  from assms have "find (\<lambda>e. endsWith s e) imageExtensions \<noteq> None"
    by (auto simp: find_None_iff)
  then obtain e where e: "find (\<lambda>e. endsWith s e) imageExtensions = Some e" by blast
  then have mem: "e \<in> set imageExtensions" and ends: "endsWith s e"
    by (auto simp: find_Some_iff in_set_conv_nth)
  from ends assms(2) have "suffix e ext \<or> suffix ext e"
    unfolding endsWith_suffix by (meson suffix_same_cases)
  then have "e = ext"
    using imageExtension_no_suffix[OF assms(1) mem] imageExtension_no_suffix[OF mem assms(1)]
    by (auto simp: endsWith_suffix)
  with e show ?thesis by simp
qed

section \<open>getImageExtensionForMimeType\<close>

lemma indexOfFrom_absent: "x \<notin> set xs \<Longrightarrow> indexOfFrom k xs x = -1"
  by (induction xs arbitrary: k) auto

lemma indexOfFrom_first:
  "x \<in> set xs \<Longrightarrow>
     \<exists>i<length xs. xs ! i = x \<and> (\<forall>j<i. xs ! j \<noteq> x) \<and> indexOfFrom k xs x = k + int i"
proof (induction xs arbitrary: k)
  case Nil
  then show ?case by simp
next
  case (Cons y ys)
  show ?case
  proof (cases "y = x")
    case True
    then show ?thesis by (intro exI[of _ 0]) simp
  next
    case False
    with Cons.prems have "x \<in> set ys" by simp
    from Cons.IH[OF this, of "k + 1"] obtain i where
      i: "i < length ys" "ys ! i = x" "\<forall>j<i. ys ! j \<noteq> x" "indexOfFrom (k + 1) ys x = k + 1 + int i"
      by blast
    have "\<forall>j<Suc i. (y # ys) ! j \<noteq> x"
      using False i(3) by (auto simp: nth_Cons split: nat.splits)
    with i False show ?thesis
      by (intro exI[of _ "Suc i"]) simp
  qed
qed

lemma length_table: "length imageExtensionToMime = 7"
  by (simp add: imageExtensionToMime_def)

text \<open>
  Claim C5.  For a MIME type of the table, \<open>getImageExtensionForMimeType\<close> returns the
  extension of the first entry, in the order of declaration, whose MIME type it is;
  so \<open>image/jpeg\<close> gives \<open>.jpeg\<close> and not \<open>.jpg\<close>.  For any other string it returns
  \<open>undefined\<close>.
\<close>

theorem getImageExtensionForMimeType_first:
  "(mimeType \<in> set imageMimeTypes \<longrightarrow>
      (\<exists>i<length imageExtensionToMime.
          snd (imageExtensionToMime ! i) = mimeType \<and>
          (\<forall>j<i. snd (imageExtensionToMime ! j) \<noteq> mimeType) \<and>
          getImageExtensionForMimeType mimeType = Some (fst (imageExtensionToMime ! i)))) \<and>
   (mimeType \<notin> set imageMimeTypes \<longrightarrow> getImageExtensionForMimeType mimeType = None) \<and>
   getImageExtensionForMimeType ''image/jpeg'' = Some ''.jpeg''"
proof (intro conjI impI)
  assume "mimeType \<in> set imageMimeTypes"
  from indexOfFrom_first[OF this, of 0] obtain i where
    i: "i < length imageMimeTypes" "imageMimeTypes ! i = mimeType"
       "\<forall>j<i. imageMimeTypes ! j \<noteq> mimeType" "indexOf imageMimeTypes mimeType = int i"
    by (auto simp: indexOf_def)
  have len: "i < length imageExtensionToMime"
    using i(1) by (simp add: imageMimeTypes_def)
  have "getImageExtensionForMimeType mimeType = Some (imageExtensions ! i)"
    using len i(4) by (simp add: getImageExtensionForMimeType_def index_def imageExtensions_def)
  moreover have "snd (imageExtensionToMime ! i) = mimeType"
    using i(2) len by (simp add: imageMimeTypes_def)
  moreover have "\<forall>j<i. snd (imageExtensionToMime ! j) \<noteq> mimeType"
    using i(3) len by (simp add: imageMimeTypes_def)
  ultimately show "\<exists>i<length imageExtensionToMime.
          snd (imageExtensionToMime ! i) = mimeType \<and>
          (\<forall>j<i. snd (imageExtensionToMime ! j) \<noteq> mimeType) \<and>
          getImageExtensionForMimeType mimeType = Some (fst (imageExtensionToMime ! i))"
    using len by (intro exI[of _ i]) (simp add: imageExtensions_def)
next
  assume "mimeType \<notin> set imageMimeTypes"
  then show "getImageExtensionForMimeType mimeType = None"
    by (simp add: getImageExtensionForMimeType_def indexOf_def indexOfFrom_absent)
next
  show "getImageExtensionForMimeType ''image/jpeg'' = Some ''.jpeg''"
    by (simp add: getImageExtensionForMimeType_def indexOf_def index_def imageMimeTypes_def
        imageExtensions_def imageExtensionToMime_def)
qed

theorem getImageExtensionForMimeType_first_witness:
  "''image/png'' \<in> set imageMimeTypes \<and>
   getImageExtensionForMimeType ''image/png'' = Some ''.png'' \<and>
   ''font/woff2'' \<notin> set imageMimeTypes \<and>
   getImageExtensionForMimeType ''font/woff2'' = None"
proof -
  have a: "''image/png'' \<in> set imageMimeTypes"
    by (simp add: imageMimeTypes_def imageExtensionToMime_def)
  have b: "''font/woff2'' \<notin> set imageMimeTypes"
    by (simp add: imageMimeTypes_def imageExtensionToMime_def)
  from getImageExtensionForMimeType_first[of "''image/png''"] a
  obtain i where i: "i < length imageExtensionToMime" "snd (imageExtensionToMime ! i) = ''image/png''"
    "getImageExtensionForMimeType ''image/png'' = Some (fst (imageExtensionToMime ! i))"
    by blast
  have "i = 4"
    using i(1,2) by (auto simp: imageExtensionToMime_def nth_Cons less_Suc_eq split: nat.splits)
  then have c: "getImageExtensionForMimeType ''image/png'' = Some ''.png''"
    using i(3) by (simp add: imageExtensionToMime_def)
  from getImageExtensionForMimeType_first[of "''font/woff2''"] b
  have d: "getImageExtensionForMimeType ''font/woff2'' = None" by blast
  from a b c d show ?thesis by blast
qed

section \<open>getImageNameAndType on a string\<close>

lemma getImageNameAndType_String:
  "getImageNameAndType nanoid (String s) d =
     (if truthy (nullish (find (\<lambda>ext. endsWith s ext) imageExtensions) d)
      then (Some s, mapGet imageExtensionToMime (the (nullish (find (\<lambda>ext. endsWith s ext) imageExtensions) d)))
      else (None, None))"
  by (simp add: getImageNameAndType_def Let_def)

lemma find_imageExtension:
  "find P imageExtensions = Some ext \<Longrightarrow> ext \<in> set imageExtensions \<and> P ext"
  by (auto simp: find_Some_iff in_set_conv_nth)

text \<open>
  Claim C7.  For an extension of the table and a string that ends with it,
  \<open>getImageNameAndType\<close> without a default extension returns the string itself as the
  file name, and the MIME type the table gives for that extension.
\<close>

theorem getImageNameAndType_string_roundtrip:
  assumes "ext \<in> set imageExtensions" and "endsWith s ext"
  shows "\<exists>mimeType. mapGet imageExtensionToMime ext = Some mimeType \<and>
           getImageNameAndType nanoid (String s) None = (Some s, Some mimeType)"
proof -
  from mapGet_imageExtension[OF assms(1)] obtain m where
    m: "mapGet imageExtensionToMime ext = Some m" by blast
  have "find (\<lambda>e. endsWith s e) imageExtensions = Some ext"
    by (rule find_endsWith_unique[OF assms])
  moreover have "ext \<noteq> []"
    by (rule imageExtension_nonempty[OF assms(1)])
  ultimately have "getImageNameAndType nanoid (String s) None = (Some s, Some m)"
    by (simp add: getImageNameAndType_String nullish_def truthy_def m)
  with m show ?thesis by blast
qed

theorem getImageNameAndType_string_roundtrip_witness:
  "''.png'' \<in> set imageExtensions \<and> endsWith ''photo.png'' ''.png'' \<and>
   getImageNameAndType ''V1StGXR8'' (String ''photo.png'') None = (Some ''photo.png'', Some ''image/png'')"
proof -
  have a: "''.png'' \<in> set imageExtensions" by (simp add: imageExtensions_eq)
  have b: "endsWith ''photo.png'' ''.png''" by (simp add: endsWith_def)
  have c: "mapGet imageExtensionToMime ''.png'' = Some ''image/png''"
    by (simp add: mapGet_def imageExtensionToMime_def)
  from getImageNameAndType_string_roundtrip[OF a b, of "''V1StGXR8''"] c
  have "getImageNameAndType ''V1StGXR8'' (String ''photo.png'') None = (Some ''photo.png'', Some ''image/png'')"
    by auto
  with a b show ?thesis by blast
qed

section \<open>The scan of a structured URL\<close>

lemma fileNameAt_groups:
  assumes "fileNameAt prev s = Some (g1, g2)"
  shows "\<exists>f. f \<noteq> [] \<and> nullish (nullish g1 g2) (Some []) = Some f"
  using assms
  by (auto simp: fileNameAt_def nullish_def quotedName_def
      split: if_splits option.splits list.splits)

lemma regexSearch_Some:
  "regexSearch m prev s = Some r \<Longrightarrow> \<exists>p t. m p t = Some r"
  by (induction m prev s rule: regexSearch.induct) (auto split: option.splits)

lemma fileName_match_groups:
  assumes "fileName_match v = Some (g1, g2)"
  shows "\<exists>f. f \<noteq> [] \<and> nullish (nullish g1 g2) (Some []) = Some f"
proof -
  from assms obtain p t where "fileNameAt p t = Some (g1, g2)"
    unfolding fileName_match_def by (blast dest: regexSearch_Some)
  then show ?thesis by (rule fileNameAt_groups)
qed

lemma mimeType_match_nonempty:
  assumes "mimeType_match v = Some m"
  shows "m \<noteq> []"
proof -
  from assms obtain p t where "mimeTypeAt p t = Some m"
    unfolding mimeType_match_def by (blast dest: regexSearch_Some)
  then show ?thesis
    by (auto simp: mimeTypeAt_def split: if_splits option.splits list.splits)
qed

lemma searchParams_get_key:
  "key \<in> set (searchParams_keys ps) \<Longrightarrow> \<exists>v. searchParams_get ps key = Some v \<and> (key, v) \<in> set ps"
  unfolding searchParams_keys_def searchParams_get_def
  by (metis (no_types, lifting) domD domI dom_map_of_conv_image_fst list.set_map map_of_SomeD)

text \<open>
  The file name after one turn of the loop depends on the file name before it and
  on the key alone; once a file name is set it stays.
\<close>

lemma paramStep_fileName:
  "fst (paramStep ext ps (fn, mt, b) key) =
     (if \<not> truthy fn \<and> contentDispositionKey_test key then
        (case fileName_match (the (searchParams_get ps key)) of
           None \<Rightarrow> fn
         | Some (g1, g2) \<Rightarrow> nullish (nullish g1 g2) (Some []))
      else fn)"
  by (simp add: paramStep_def Let_def split: option.splits prod.splits)

lemma paramStep_fileName_indep:
  "fst (paramStep ext ps (fn, mt, b) key) = fst (paramStep ext' ps (fn, mt', b') key)"
  by (simp only: paramStep_fileName)

lemma paramStep_fileName_settled:
  assumes "fn = None \<or> truthy fn"
  shows "fst (paramStep ext ps (fn, mt, b) key) = None \<or> truthy (fst (paramStep ext ps (fn, mt, b) key))"
  using assms
  by (auto simp: paramStep_fileName truthy_def split: option.splits dest: fileName_match_groups)

lemma paramStep_fileName_stable:
  "truthy fn \<Longrightarrow> fst (paramStep ext ps (fn, mt, b) key) = fn"
  by (simp add: paramStep_fileName)

lemma paramStep_mimeType_settled:
  assumes "mt = None \<or> truthy mt"
  shows "fst (snd (paramStep ext ps (fn, mt, b) key)) = None
           \<or> truthy (fst (snd (paramStep ext ps (fn, mt, b) key)))"
  using assms
  by (auto simp: paramStep_def Let_def truthy_def split: option.splits prod.splits
      dest: mimeType_match_nonempty)

lemma foldl_paramStep_fileName_indep:
  "fst (foldl (paramStep ext ps) (fn, mt, b) ks) = fst (foldl (paramStep ext' ps) (fn, mt', b') ks)"
proof (induction ks arbitrary: fn mt b mt' b')
  case Nil
  show ?case by simp
next
  case (Cons k ks)
  obtain fn1 mt1 b1 where s1: "paramStep ext ps (fn, mt, b) k = (fn1, mt1, b1)"
    by (cases "paramStep ext ps (fn, mt, b) k") auto
  obtain fn2 mt2 b2 where s2: "paramStep ext' ps (fn, mt', b') k = (fn2, mt2, b2)"
    by (cases "paramStep ext' ps (fn, mt', b') k") auto
  have "fn1 = fn2"
    using paramStep_fileName_indep[of ext ps fn mt b k ext' mt' b'] s1 s2 by simp
  then show ?case
    using Cons.IH[of fn1 mt1 b1 mt2 b2] s1 s2 by simp
qed

lemma foldl_paramStep_fileName_stable:
  "truthy fn \<Longrightarrow> fst (foldl (paramStep ext ps) (fn, mt, b) ks) = fn"
proof (induction ks arbitrary: mt b)
  case Nil
  show ?case by simp
next
  case (Cons k ks)
  obtain fn1 mt1 b1 where s1: "paramStep ext ps (fn, mt, b) k = (fn1, mt1, b1)"
    by (cases "paramStep ext ps (fn, mt, b) k") auto
  have "fn1 = fn"
    using paramStep_fileName_stable[OF Cons.prems, of ext ps mt b k] s1 by simp
  then show ?case
    using Cons.IH[OF Cons.prems, of mt1 b1] s1 by simp
qed

lemma foldl_paramStep_fileName_settled:
  assumes "fn = None \<or> truthy fn"
  shows "fst (foldl (paramStep ext ps) (fn, mt, b) ks) = None
           \<or> truthy (fst (foldl (paramStep ext ps) (fn, mt, b) ks))"
  using assms
proof (induction ks arbitrary: fn mt b)
  case Nil
  then show ?case by simp
next
  case (Cons k ks)
  obtain fn1 mt1 b1 where s1: "paramStep ext ps (fn, mt, b) k = (fn1, mt1, b1)"
    by (cases "paramStep ext ps (fn, mt, b) k") auto
  have "fn1 = None \<or> truthy fn1"
    using paramStep_fileName_settled[OF Cons.prems(1), of ext ps mt b k] s1 by simp
  then show ?case
    using Cons.IH[of fn1 mt1 b1] s1 by simp
qed

lemma foldl_paramStep_mimeType_settled:
  assumes "mt = None \<or> truthy mt"
  shows "fst (snd (foldl (paramStep ext ps) (fn, mt, b) ks)) = None
           \<or> truthy (fst (snd (foldl (paramStep ext ps) (fn, mt, b) ks)))"
  using assms
proof (induction ks arbitrary: fn mt b)
  case Nil
  then show ?case by simp
next
  case (Cons k ks)
  obtain fn1 mt1 b1 where s1: "paramStep ext ps (fn, mt, b) k = (fn1, mt1, b1)"
    by (cases "paramStep ext ps (fn, mt, b) k") auto
  have "mt1 = None \<or> truthy mt1"
    using paramStep_mimeType_settled[OF Cons.prems(1), of ext ps fn b k] s1 by simp
  then show ?case
    using Cons.IH[of mt1 fn1 b1] s1 by simp
qed

text \<open>
  The file name the loop captures when it starts without one is the same in every
  call of the callback, and a call that starts with it ends with it.
\<close>

lemma searchParamsLoop_fileName:
  assumes "fn = None \<or> fn = fst (searchParamsLoop ext0 ps (None, mt0, b0))"
  shows "fst (searchParamsLoop ext ps (fn, mt, b)) = fst (searchParamsLoop ext0 ps (None, mt0, b0))"
proof (cases "fn = None")
  case True
  then show ?thesis
    unfolding searchParamsLoop_def
    by (simp add: foldl_paramStep_fileName_indep[of ext ps None mt b _ ext0 mt0 b0])
next
  case False
  with assms have eq: "fn = fst (searchParamsLoop ext0 ps (None, mt0, b0))" by simp
  have "fn = None \<or> truthy fn"
    unfolding eq searchParamsLoop_def
    by (rule foldl_paramStep_fileName_settled) simp
  with False have "truthy fn" by blast
  then have "fst (searchParamsLoop ext ps (fn, mt, b)) = fn"
    unfolding searchParamsLoop_def by (rule foldl_paramStep_fileName_stable)
  with eq show ?thesis by simp
qed

lemma searchParamsLoop_mimeType_settled:
  assumes "mt = None \<or> truthy mt"
  shows "fst (snd (searchParamsLoop ext ps (fn, mt, b))) = None
           \<or> truthy (fst (snd (searchParamsLoop ext ps (fn, mt, b))))"
  unfolding searchParamsLoop_def using assms by (rule foldl_paramStep_mimeType_settled)

text \<open>What one call of the callback leaves in \<open>fileName\<close> and \<open>mimeType\<close>.\<close>

lemma findCallback_fileName:
  assumes "fn = None \<or> fn = fst (searchParamsLoop ext0 (searchParams u) (None, mt0, b0))"
    and "findCallback u basename ext (fn, mt) = (found, fn', mt')"
  shows "fn' = (if endsWith basename ext
                 \<and> \<not> optEndsWith (fst (searchParamsLoop ext0 (searchParams u) (None, mt0, b0))) ext
               then Some basename
               else fst (searchParamsLoop ext0 (searchParams u) (None, mt0, b0)))"
proof -
  obtain f1 m1 b1 where l: "searchParamsLoop ext (searchParams u) (fn, mt, False) = (f1, m1, b1)"
    by (cases "searchParamsLoop ext (searchParams u) (fn, mt, False)") auto
  have "f1 = fst (searchParamsLoop ext0 (searchParams u) (None, mt0, b0))"
    using searchParamsLoop_fileName[OF assms(1), of ext mt False] l by simp
  then show ?thesis
    using assms(2) l by (auto simp: findCallback_def split: if_splits)
qed

lemma findCallback_basename:
  assumes "findCallback u basename ext (fn, mt) = (False, fn', mt')"
  shows "\<not> endsWith basename ext"
  using assms by (auto simp: findCallback_def split: prod.splits if_splits)

lemma findCallback_mimeType_settled:
  assumes "mt = None \<or> truthy mt"
    and "findCallback u basename ext (fn, mt) = (found, fn', mt')"
  shows "mt' = None \<or> truthy mt'"
proof -
  obtain f1 m1 b1 where l: "searchParamsLoop ext (searchParams u) (fn, mt, False) = (f1, m1, b1)"
    by (cases "searchParamsLoop ext (searchParams u) (fn, mt, False)") auto
  have "m1 = None \<or> truthy m1"
    using searchParamsLoop_mimeType_settled[OF assms(1), of ext "searchParams u" fn False] l by simp
  then show ?thesis
    using assms(2) l by (auto simp: findCallback_def split: if_splits)
qed

text \<open>The result of \<open>find\<close>, by induction on the extensions still to try.\<close>

lemma findExtension_result:
  assumes "fn = None \<or> fn = fst (searchParamsLoop ext0 (searchParams u) (None, mt0, b0))"
    and "mt = None \<or> truthy mt"
    and "findExtension u basename exts (fn, mt) = (r, fn', mt')"
  shows "(mt' = None \<or> truthy mt') \<and>
         (case r of
            None \<Rightarrow>
              (\<forall>e \<in> set exts. \<not> endsWith basename e) \<and>
              (if exts = [] then fn' = fn
               else fn' = fst (searchParamsLoop ext0 (searchParams u) (None, mt0, b0)))
          | Some ext \<Rightarrow>
              ext \<in> set exts \<and>
              fn' = (if endsWith basename ext
                       \<and> \<not> optEndsWith (fst (searchParamsLoop ext0 (searchParams u) (None, mt0, b0))) ext
                     then Some basename
                     else fst (searchParamsLoop ext0 (searchParams u) (None, mt0, b0))))"
  using assms
proof (induction exts arbitrary: fn mt)
  case Nil
  then show ?case by simp
next
  case (Cons e exts)
  obtain found f1 m1 where cb: "findCallback u basename e (fn, mt) = (found, f1, m1)"
    by (cases "findCallback u basename e (fn, mt)") auto
  have f1: "f1 = (if endsWith basename e
                 \<and> \<not> optEndsWith (fst (searchParamsLoop ext0 (searchParams u) (None, mt0, b0))) e
               then Some basename
               else fst (searchParamsLoop ext0 (searchParams u) (None, mt0, b0)))"
    by (rule findCallback_fileName[OF Cons.prems(1) cb])
  have m1: "m1 = None \<or> truthy m1"
    by (rule findCallback_mimeType_settled[OF Cons.prems(2) cb])
  show ?case
  proof (cases found)
    case True
    with Cons.prems(3) cb have "r = Some e" "fn' = f1" "mt' = m1" by simp_all
    with f1 m1 show ?thesis by simp
  next
    case False
    with cb have nb: "\<not> endsWith basename e"
      by (auto dest: findCallback_basename)
    with f1 have f1': "f1 = fst (searchParamsLoop ext0 (searchParams u) (None, mt0, b0))" by simp
    from False Cons.prems(3) cb have rec: "findExtension u basename exts (f1, m1) = (r, fn', mt')"
      by simp
    have ih: "(mt' = None \<or> truthy mt') \<and>
         (case r of
            None \<Rightarrow>
              (\<forall>e \<in> set exts. \<not> endsWith basename e) \<and>
              (if exts = [] then fn' = f1
               else fn' = fst (searchParamsLoop ext0 (searchParams u) (None, mt0, b0)))
          | Some ext \<Rightarrow>
              ext \<in> set exts \<and>
              fn' = (if endsWith basename ext
                       \<and> \<not> optEndsWith (fst (searchParamsLoop ext0 (searchParams u) (None, mt0, b0))) ext
                     then Some basename
                     else fst (searchParamsLoop ext0 (searchParams u) (None, mt0, b0))))"
      using Cons.IH[of f1 m1] f1' m1 rec by simp
    then show ?thesis
      using nb f1' by (auto split: option.splits if_splits)
  qed
qed

section \<open>getImageNameAndType on a structured URL\<close>

lemma scanURL_result:
  assumes "scanURL u = (r, fn, mt)"
  shows "(mt = None \<or> truthy mt) \<and>
         (case r of
            None \<Rightarrow>
              (\<forall>e \<in> set imageExtensions. \<not> endsWith (basenameOf u) e) \<and>
              fn = fst (searchParamsLoop ext0 (searchParams u) (None, mt0, b0))
          | Some ext \<Rightarrow>
              ext \<in> set imageExtensions \<and>
              fn = (if endsWith (basenameOf u) ext
                      \<and> \<not> optEndsWith (fst (searchParamsLoop ext0 (searchParams u) (None, mt0, b0))) ext
                    then Some (basenameOf u)
                    else fst (searchParamsLoop ext0 (searchParams u) (None, mt0, b0))))"
proof -
  have ne: "imageExtensions \<noteq> []" by (simp add: imageExtensions_eq)
  from assms have "findExtension u (basenameOf u) imageExtensions (None, None) = (r, fn, mt)"
    by (simp add: scanURL_def)
  from findExtension_result[OF _ _ this, of ext0 mt0 b0] ne show ?thesis
    by (auto split: option.splits)
qed

lemma getImageNameAndType_Url_resolved:
  assumes "scanURL u = (r, fn, mt)" and "nullish r d = Some e" and "e \<in> set imageExtensions"
  shows "\<exists>m. mapGet imageExtensionToMime e = Some m \<and>
           getImageNameAndType nanoid (Url u) d =
             (Some (case fn of None \<Rightarrow> nanoid @ ''.'' @ e | Some f \<Rightarrow> f), Some m)"
proof -
  from mapGet_imageExtension[OF assms(3)] obtain m where
    m: "mapGet imageExtensionToMime e = Some m" "m \<noteq> []" by blast
  have e: "e \<noteq> []" by (rule imageExtension_nonempty[OF assms(3)])
  have "getImageNameAndType nanoid (Url u) d =
          (Some (case fn of None \<Rightarrow> nanoid @ ''.'' @ e | Some f \<Rightarrow> f), Some m)"
    using assms(1,2) m e
    by (simp add: getImageNameAndType_def Let_def truthy_def templateString_def
        split: option.splits)
  with m(1) show ?thesis by blast
qed

lemma getImageNameAndType_Url_unresolved:
  assumes "scanURL u = (None, fn, mt)"
  shows "getImageNameAndType nanoid (Url u) None =
           (case mt of
              None \<Rightarrow> (None, None)
            | Some hint \<Rightarrow>
                (Some (case fn of None \<Rightarrow> nanoid @ ''.'' @ ''undefined'' | Some f \<Rightarrow> f), Some hint))"
proof -
  from scanURL_result[OF assms] have "mt = None \<or> truthy mt" by simp
  then show ?thesis
    using assms
    by (auto simp: getImageNameAndType_def Let_def truthy_def nullish_def templateString_def
        split: option.splits)
qed

text \<open>
  Claim C1, as the code has it.  With no default extension and no extension found:
  a string gives \<open>(undefined, undefined)\<close>; a structured URL gives
  \<open>(undefined, undefined)\<close> when the scan captured no MIME type from a
  \<open>content-type\<close> parameter, and otherwise it returns the captured MIME type, with
  the file name captured from a \<open>content-disposition\<close> parameter when there is one.
\<close>

theorem getImageNameAndType_unresolved:
  "(find (\<lambda>ext. endsWith s ext) imageExtensions = None \<longrightarrow>
      getImageNameAndType nanoid (String s) None = (None, None)) \<and>
   (scanURL u = (None, fileName, None) \<longrightarrow>
      getImageNameAndType nanoid (Url u) None = (None, None)) \<and>
   (scanURL u = (None, fileName, Some hint) \<longrightarrow>
      snd (getImageNameAndType nanoid (Url u) None) = Some hint \<and>
      (\<forall>f. fileName = Some f \<longrightarrow> fst (getImageNameAndType nanoid (Url u) None) = Some f))"
proof (intro conjI impI allI)
  assume "find (\<lambda>ext. endsWith s ext) imageExtensions = None"
  then show "getImageNameAndType nanoid (String s) None = (None, None)"
    by (simp add: getImageNameAndType_String nullish_def truthy_def)
next
  assume "scanURL u = (None, fileName, None)"
  from getImageNameAndType_Url_unresolved[OF this]
  show "getImageNameAndType nanoid (Url u) None = (None, None)" by simp
next
  assume "scanURL u = (None, fileName, Some hint)"
  from getImageNameAndType_Url_unresolved[OF this]
  show "snd (getImageNameAndType nanoid (Url u) None) = Some hint" by simp
next
  fix f
  assume "scanURL u = (None, fileName, Some hint)" and "fileName = Some f"
  with getImageNameAndType_Url_unresolved[of u fileName "Some hint"]
  show "fst (getImageNameAndType nanoid (Url u) None) = Some f" by simp
qed

theorem getImageNameAndType_unresolved_witness:
  "find (\<lambda>ext. endsWith ''data.bin'' ext) imageExtensions = None \<and>
   getImageNameAndType ''V1StGXR8'' (String ''data.bin'') None = (None, None) \<and>
   scanURL \<lparr>pathname = ''/download'', searchParams = []\<rparr> = (None, None, None) \<and>
   getImageNameAndType ''V1StGXR8'' (Url \<lparr>pathname = ''/download'', searchParams = []\<rparr>) None
     = (None, None) \<and>
   scanURL \<lparr>pathname = ''/download'',
      searchParams = [(''content-disposition'', ''attachment; filename=photo.avif''),
                      (''content-type'', ''image/avif'')]\<rparr>
     = (None, Some ''photo.avif'', Some ''image/avif'') \<and>
   getImageNameAndType ''V1StGXR8''
      (Url \<lparr>pathname = ''/download'',
         searchParams = [(''content-disposition'', ''attachment; filename=photo.avif''),
                         (''content-type'', ''image/avif'')]\<rparr>) None
     = (Some ''photo.avif'', Some ''image/avif'')"
proof -
  have a: "find (\<lambda>ext. endsWith ''data.bin'' ext) imageExtensions = None"
    by code_simp
  have b: "scanURL \<lparr>pathname = ''/download'', searchParams = []\<rparr> = (None, None, None)"
    by code_simp
  have c: "scanURL \<lparr>pathname = ''/download'',
      searchParams = [(''content-disposition'', ''attachment; filename=photo.avif''),
                      (''content-type'', ''image/avif'')]\<rparr>
     = (None, Some ''photo.avif'', Some ''image/avif'')"
    by code_simp
  note t = getImageNameAndType_unresolved[of "''data.bin''" "''V1StGXR8''"]
  from t[of "\<lparr>pathname = ''/download'', searchParams = []\<rparr>" None] a b
  have d: "getImageNameAndType ''V1StGXR8'' (String ''data.bin'') None = (None, None)"
    and e: "getImageNameAndType ''V1StGXR8'' (Url \<lparr>pathname = ''/download'', searchParams = []\<rparr>) None
     = (None, None)"
    by blast+
  from t[of "\<lparr>pathname = ''/download'',
      searchParams = [(''content-disposition'', ''attachment; filename=photo.avif''),
                      (''content-type'', ''image/avif'')]\<rparr>" "Some ''photo.avif''" "''image/avif''"] c
  have f: "getImageNameAndType ''V1StGXR8''
      (Url \<lparr>pathname = ''/download'',
         searchParams = [(''content-disposition'', ''attachment; filename=photo.avif''),
                         (''content-type'', ''image/avif'')]\<rparr>) None
     = (Some ''photo.avif'', Some ''image/avif'')"
    by (metis prod.collapse)
  from a b c d e f show ?thesis by blast
qed

text \<open>
  Claim C1 as the spec states it fails: a \<open>content-type\<close> parameter with an image type
  outside the table resolves no extension, and the result is not
  \<open>(undefined, undefined)\<close>.
\<close>

theorem getImageNameAndType_unresolved_counterexample:
  "fst (scanURL \<lparr>pathname = ''/'', searchParams = [(''content-type'', ''image/avif'')]\<rparr>) = None \<and>
   getImageNameAndType ''V1StGXR8''
      (Url \<lparr>pathname = ''/'', searchParams = [(''content-type'', ''image/avif'')]\<rparr>) None
     = (Some ''V1StGXR8.undefined'', Some ''image/avif'')"
  by code_simp

text \<open>
  Claim C2.  Take a structured URL whose scan captures a file name from a
  \<open>content-disposition\<close> parameter (the loop over the parameters, started without a
  file name, ends with it) and selects an extension.  When the base name ends with
  that extension, the base name is returned unless the captured name ends with the
  extension too, in which case the captured name is returned; when the base name
  does not end with the extension, the captured name is returned.
\<close>

theorem getImageNameAndType_captured_fileName:
  assumes "fst (searchParamsLoop e (searchParams u) (None, m, b)) = Some captured"
    and "fst (scanURL u) = Some ext"
  shows "fst (getImageNameAndType nanoid (Url u) defaultExtension) =
           Some (if endsWith (basenameOf u) ext
                 then (if endsWith captured ext then captured else basenameOf u)
                 else captured)"
proof -
  obtain fn mt where sc: "scanURL u = (Some ext, fn, mt)"
    using assms(2) by (cases "scanURL u") auto
  from scanURL_result[OF sc, of e m b] assms(1)
  have mem: "ext \<in> set imageExtensions"
    and fn: "fn = Some (if endsWith (basenameOf u) ext \<and> \<not> endsWith captured ext
                        then basenameOf u else captured)"
    by (simp_all add: optEndsWith_def)
  have "nullish (Some ext) defaultExtension = Some ext" by (simp add: nullish_def)
  from getImageNameAndType_Url_resolved[OF sc this mem, of nanoid] fn
  show ?thesis by auto
qed

theorem getImageNameAndType_captured_fileName_witness:
  "fst (searchParamsLoop ''.gif''
          [(''response-content-disposition'', ''attachment; filename='' @ [dquote] @ ''cat.webp'' @ [dquote])]
          (None, None, False)) = Some ''cat.webp'' \<and>
   fst (scanURL \<lparr>pathname = ''/img/b.png'',
          searchParams = [(''response-content-disposition'',
                           ''attachment; filename='' @ [dquote] @ ''cat.webp'' @ [dquote])]\<rparr>) = Some ''.png'' \<and>
   endsWith ''b.png'' ''.png'' \<and> \<not> endsWith ''cat.webp'' ''.png'' \<and>
   fst (getImageNameAndType ''V1StGXR8''
          (Url \<lparr>pathname = ''/img/b.png'',
             searchParams = [(''response-content-disposition'',
                              ''attachment; filename='' @ [dquote] @ ''cat.webp'' @ [dquote])]\<rparr>) None)
     = Some ''b.png'' \<and>
   fst (searchParamsLoop ''.gif''
          [(''response-content-disposition'', ''attachment; filename=cat.webp; size=1'')]
          (None, None, False)) = Some ''cat.webp'' \<and>
   fst (scanURL \<lparr>pathname = ''/download'',
          searchParams = [(''response-content-disposition'',
                           ''attachment; filename=cat.webp; size=1'')]\<rparr>) = Some ''.webp'' \<and>
   \<not> endsWith ''download'' ''.webp'' \<and>
   fst (getImageNameAndType ''V1StGXR8''
          (Url \<lparr>pathname = ''/download'',
             searchParams = [(''response-content-disposition'',
                              ''attachment; filename=cat.webp; size=1'')]\<rparr>) None)
     = Some ''cat.webp''"
proof -
  have a: "fst (searchParamsLoop ''.gif''
          (searchParams \<lparr>pathname = ''/img/b.png'',
             searchParams = [(''response-content-disposition'',
                              ''attachment; filename='' @ [dquote] @ ''cat.webp'' @ [dquote])]\<rparr>)
          (None, None, False)) = Some ''cat.webp''"
    by code_simp
  have b: "fst (scanURL \<lparr>pathname = ''/img/b.png'',
          searchParams = [(''response-content-disposition'',
                           ''attachment; filename='' @ [dquote] @ ''cat.webp'' @ [dquote])]\<rparr>) = Some ''.png''"
    by code_simp
  have c: "basenameOf \<lparr>pathname = ''/img/b.png'',
          searchParams = [(''response-content-disposition'',
                           ''attachment; filename='' @ [dquote] @ ''cat.webp'' @ [dquote])]\<rparr> = ''b.png''"
    by code_simp
  have d: "endsWith ''b.png'' ''.png''" "\<not> endsWith ''cat.webp'' ''.png''"
    by (simp_all add: endsWith_def)
  have r1: "fst (getImageNameAndType ''V1StGXR8''
          (Url \<lparr>pathname = ''/img/b.png'',
             searchParams = [(''response-content-disposition'',
                              ''attachment; filename='' @ [dquote] @ ''cat.webp'' @ [dquote])]\<rparr>) None)
     = Some ''b.png''"
    using getImageNameAndType_captured_fileName[OF a b, of "''V1StGXR8''" None] c d by simp
  have a': "fst (searchParamsLoop ''.gif''
          (searchParams \<lparr>pathname = ''/download'',
             searchParams = [(''response-content-disposition'',
                              ''attachment; filename=cat.webp; size=1'')]\<rparr>)
          (None, None, False)) = Some ''cat.webp''"
    by code_simp
  have b': "fst (scanURL \<lparr>pathname = ''/download'',
          searchParams = [(''response-content-disposition'',
                           ''attachment; filename=cat.webp; size=1'')]\<rparr>) = Some ''.webp''"
    by code_simp
  have c': "basenameOf \<lparr>pathname = ''/download'',
          searchParams = [(''response-content-disposition'',
                           ''attachment; filename=cat.webp; size=1'')]\<rparr> = ''download''"
    by code_simp
  have d': "\<not> endsWith ''download'' ''.webp''"
    by (simp add: endsWith_def)
  have r2: "fst (getImageNameAndType ''V1StGXR8''
          (Url \<lparr>pathname = ''/download'',
             searchParams = [(''response-content-disposition'',
                              ''attachment; filename=cat.webp; size=1'')]\<rparr>) None)
     = Some ''cat.webp''"
    using getImageNameAndType_captured_fileName[OF a' b', of "''V1StGXR8''" None] c' d' by simp
  from a b d r1 a' b' d' r2 show ?thesis by simp
qed

text \<open>
  Claim C3.  For a structured URL, whenever an extension is resolved, by the scan or
  by the default extension (which its type takes from the table), the MIME type
  returned is the one the table gives for that extension, whatever MIME type the
  scan captured from a \<open>content-type\<close> parameter.
\<close>

theorem getImageNameAndType_mimeType_of_extension:
  assumes "set_option defaultExtension \<subseteq> set imageExtensions"
    and "scanURL u = (found, fileName, hint)"
    and "nullish found defaultExtension = Some ext"
  shows "\<exists>mimeType. mapGet imageExtensionToMime ext = Some mimeType \<and>
           snd (getImageNameAndType nanoid (Url u) defaultExtension) = Some mimeType"
proof -
  have "ext \<in> set imageExtensions"
  proof (cases found)
    case None
    with assms(1,3) show ?thesis by (auto simp: nullish_def)
  next
    case (Some e)
    with scanURL_result[OF assms(2)] assms(3) show ?thesis by (simp add: nullish_def)
  qed
  from getImageNameAndType_Url_resolved[OF assms(2,3) this, of nanoid]
  show ?thesis by auto
qed

theorem getImageNameAndType_mimeType_of_extension_witness:
  "set_option None \<subseteq> set imageExtensions \<and>
   scanURL \<lparr>pathname = ''/a.gif'', searchParams = [(''content-type'', ''image/png'')]\<rparr>
     = (Some ''.gif'', Some ''a.gif'', Some ''image/png'') \<and>
   nullish (Some ''.gif'') None = Some ''.gif'' \<and>
   snd (getImageNameAndType ''V1StGXR8''
          (Url \<lparr>pathname = ''/a.gif'', searchParams = [(''content-type'', ''image/png'')]\<rparr>) None)
     = Some ''image/gif''"
proof -
  have a: "set_option (None :: string option) \<subseteq> set imageExtensions" by simp
  have b: "scanURL \<lparr>pathname = ''/a.gif'', searchParams = [(''content-type'', ''image/png'')]\<rparr>
     = (Some ''.gif'', Some ''a.gif'', Some ''image/png'')"
    by code_simp
  have c: "nullish (Some ''.gif'') None = Some ''.gif''" by (simp add: nullish_def)
  have d: "mapGet imageExtensionToMime ''.gif'' = Some ''image/gif''"
    by (simp add: mapGet_def imageExtensionToMime_def)
  from getImageNameAndType_mimeType_of_extension[OF a b c, of "''V1StGXR8''"] d
  have "snd (getImageNameAndType ''V1StGXR8''
          (Url \<lparr>pathname = ''/a.gif'', searchParams = [(''content-type'', ''image/png'')]\<rparr>) None)
     = Some ''image/gif''"
    by auto
  with a b c show ?thesis by blast
qed

text \<open>
  Claim C4.  With a default extension from the table, the file name and the MIME
  type returned are both present, for a string and for a structured URL; and
  \<open>getImageNameAndType("data.bin", ".jpg")\<close> is \<open>("data.bin", "image/jpeg")\<close>.
\<close>

theorem getImageNameAndType_default_present:
  assumes "defaultExtension \<in> set imageExtensions"
  shows "(\<exists>fileName mimeType.
            getImageNameAndType nanoid input (Some defaultExtension) = (Some fileName, Some mimeType)) \<and>
         getImageNameAndType nanoid (String ''data.bin'') (Some ''.jpg'')
           = (Some ''data.bin'', Some ''image/jpeg'')"
proof
  show "\<exists>fileName mimeType.
          getImageNameAndType nanoid input (Some defaultExtension) = (Some fileName, Some mimeType)"
  proof (cases input)
    case (String s)
    obtain e where e: "nullish (find (\<lambda>ext. endsWith s ext) imageExtensions) (Some defaultExtension) = Some e"
      by (cases "find (\<lambda>ext. endsWith s ext) imageExtensions") (auto simp: nullish_def)
    have "e \<in> set imageExtensions"
      using e assms
      by (cases "find (\<lambda>ext. endsWith s ext) imageExtensions")
        (auto simp: nullish_def dest: find_imageExtension)
    from mapGet_imageExtension[OF this] imageExtension_nonempty[OF this] e
    show ?thesis
      unfolding String by (auto simp: getImageNameAndType_String truthy_def)
  next
    case (Url u)
    obtain r fn mt where sc: "scanURL u = (r, fn, mt)"
      by (cases "scanURL u") auto
    obtain e where e: "nullish r (Some defaultExtension) = Some e"
      by (cases r) (auto simp: nullish_def)
    have "e \<in> set imageExtensions"
      using e assms scanURL_result[OF sc] by (cases r) (auto simp: nullish_def)
    from getImageNameAndType_Url_resolved[OF sc e this, of nanoid]
    show ?thesis unfolding Url by blast
  qed
next
  have "find (\<lambda>ext. endsWith ''data.bin'' ext) imageExtensions = None"
    by (simp add: imageExtensions_eq endsWith_def)
  then show "getImageNameAndType nanoid (String ''data.bin'') (Some ''.jpg'')
           = (Some ''data.bin'', Some ''image/jpeg'')"
    by (simp add: getImageNameAndType_String nullish_def truthy_def mapGet_def imageExtensionToMime_def)
qed

theorem getImageNameAndType_default_present_witness:
  "''.webp'' \<in> set imageExtensions \<and>
   getImageNameAndType ''V1StGXR8'' (Url \<lparr>pathname = ''/download'', searchParams = []\<rparr>) (Some ''.webp'')
     = (Some ''V1StGXR8..webp'', Some ''image/webp'') \<and>
   getImageNameAndType ''V1StGXR8'' (String ''data.bin'') (Some ''.jpg'')
     = (Some ''data.bin'', Some ''image/jpeg'')"
proof -
  have a: "''.webp'' \<in> set imageExtensions" by (simp add: imageExtensions_eq)
  have b: "getImageNameAndType ''V1StGXR8'' (Url \<lparr>pathname = ''/download'', searchParams = []\<rparr>) (Some ''.webp'')
     = (Some ''V1StGXR8..webp'', Some ''image/webp'')"
    by code_simp
  from getImageNameAndType_default_present[OF a, of "''V1StGXR8''"] a b
  show ?thesis by blast
qed

section \<open>uploadingFileDataToAsset\<close>

lemma split_takeWhile: "\<exists>rest. split sep s = takeWhile (\<lambda>c. c \<noteq> sep) s # rest"
  by (induction s) auto

lemma startsWith_image:
  assumes "startsWith mimeType ''image/''"
  shows "mimeType = ''image/'' @ drop 6 mimeType"
proof -
  from assms have "take (length ''image/'') mimeType = ''image/''"
    by (simp only: startsWith_def)
  moreover have "length ''image/'' = 6" by simp
  ultimately have "take 6 mimeType = ''image/''" by (simp only:)
  then show ?thesis by (metis append_take_drop_id)
qed

text \<open>The second piece of an image MIME type split at the slashes.\<close>

lemma split_image_subtype:
  assumes "startsWith mimeType ''image/''"
  shows "index (split CHR ''/'' mimeType) 1 = Some (takeWhile (\<lambda>c. c \<noteq> CHR ''/'') (drop 6 mimeType))"
proof -
  obtain rest where r: "split CHR ''/'' (drop 6 mimeType)
      = takeWhile (\<lambda>c. c \<noteq> CHR ''/'') (drop 6 mimeType) # rest"
    using split_takeWhile by blast
  have "split CHR ''/'' (''image/'' @ drop 6 mimeType)
      = ''image'' # takeWhile (\<lambda>c. c \<noteq> CHR ''/'') (drop 6 mimeType) # rest"
    by (simp add: r)
  moreover have "split CHR ''/'' mimeType = split CHR ''/'' (''image/'' @ drop 6 mimeType)"
    using startsWith_image[OF assms] by (rule arg_cong)
  ultimately have "split CHR ''/'' mimeType
      = ''image'' # takeWhile (\<lambda>c. c \<noteq> CHR ''/'') (drop 6 mimeType) # rest"
    by (simp only:)
  then show ?thesis by (simp add: index_def)
qed

lemma resolveMimeType_file:
  "resolveMimeType newURL nanoid (SourceFile f a ourl) = Inr (type' f)"
  by (simp add: resolveMimeType_def getImageType_def)

text \<open>
  Claim C6.  Whatever MIME type is resolved for an \<open>UploadingFileData\<close> record: if it
  starts with \<open>image/\<close> the asset has type \<open>image\<close>, the MIME subtype as format (the text
  after the slash, up to a further slash if the type has one) and \<open>NaN\<close> as width and
  height; otherwise the asset has type \<open>font\<close>, format \<open>woff2\<close> and the meta data
  \<open>system\<close>, \<open>normal\<close>, 400.
\<close>

theorem uploadingFileDataToAsset_by_mimeType:
  assumes "resolveMimeType newURL nanoid fileData = Inr mimeType"
  shows "uploadingFileDataToAsset newURL nanoid fileData =
           Inr (if startsWith mimeType ''image/'' then
                  \<lparr>id' = assetId fileData, name' = objectURL fileData,
                   format = Some (takeWhile (\<lambda>c. c \<noteq> CHR ''/'') (drop 6 mimeType)),
                   type'' = ''image'', description = [], createdAt = [], projectId = [],
                   size' = Number 0, meta = ImageMeta NaN NaN\<rparr>
                else
                  \<lparr>id' = assetId fileData, name' = objectURL fileData, format = Some ''woff2'',
                   type'' = ''font'', description = [], createdAt = [], projectId = [],
                   size' = Number 0, meta = FontMeta ''system'' ''normal'' (Number 400)\<rparr>) \<and>
         (CHR ''/'' \<notin> set (drop 6 mimeType) \<longrightarrow>
            takeWhile (\<lambda>c. c \<noteq> CHR ''/'') (drop 6 mimeType) = drop 6 mimeType)"
proof
  show "uploadingFileDataToAsset newURL nanoid fileData =
           Inr (if startsWith mimeType ''image/'' then
                  \<lparr>id' = assetId fileData, name' = objectURL fileData,
                   format = Some (takeWhile (\<lambda>c. c \<noteq> CHR ''/'') (drop 6 mimeType)),
                   type'' = ''image'', description = [], createdAt = [], projectId = [],
                   size' = Number 0, meta = ImageMeta NaN NaN\<rparr>
                else
                  \<lparr>id' = assetId fileData, name' = objectURL fileData, format = Some ''woff2'',
                   type'' = ''font'', description = [], createdAt = [], projectId = [],
                   size' = Number 0, meta = FontMeta ''system'' ''normal'' (Number 400)\<rparr>)"
  proof (cases "startsWith mimeType ''image/''")
    case True
    with split_image_subtype[OF True] assms show ?thesis
      by (simp add: uploadingFileDataToAsset_def Let_def)
  next
    case False
    with assms show ?thesis
      by (simp add: uploadingFileDataToAsset_def Let_def)
  qed
next
  show "CHR ''/'' \<notin> set (drop 6 mimeType) \<longrightarrow>
            takeWhile (\<lambda>c. c \<noteq> CHR ''/'') (drop 6 mimeType) = drop 6 mimeType"
    by (auto intro: takeWhile_eq_all_conv[THEN iffD2])
qed

theorem uploadingFileDataToAsset_by_mimeType_witness:
  "resolveMimeType (\<lambda>u. None) ''V1StGXR8''
      (SourceFile \<lparr>name = ''cat.jpg'', type' = ''image/jpeg''\<rparr> ''asset-1'' ''blob:1'')
     = Inr ''image/jpeg'' \<and>
   uploadingFileDataToAsset (\<lambda>u. None) ''V1StGXR8''
      (SourceFile \<lparr>name = ''cat.jpg'', type' = ''image/jpeg''\<rparr> ''asset-1'' ''blob:1'')
     = Inr \<lparr>id' = ''asset-1'', name' = ''blob:1'', format = Some ''jpeg'',
            type'' = ''image'', description = [], createdAt = [], projectId = [],
            size' = Number 0, meta = ImageMeta NaN NaN\<rparr> \<and>
   resolveMimeType (\<lambda>u. None) ''V1StGXR8''
      (SourceFile \<lparr>name = ''data'', type' = ''application/octet-stream''\<rparr> ''asset-2'' ''blob:2'')
     = Inr ''application/octet-stream'' \<and>
   uploadingFileDataToAsset (\<lambda>u. None) ''V1StGXR8''
      (SourceFile \<lparr>name = ''data'', type' = ''application/octet-stream''\<rparr> ''asset-2'' ''blob:2'')
     = Inr \<lparr>id' = ''asset-2'', name' = ''blob:2'', format = Some ''woff2'',
            type'' = ''font'', description = [], createdAt = [], projectId = [],
            size' = Number 0, meta = FontMeta ''system'' ''normal'' (Number 400)\<rparr>"
proof -
  have a: "resolveMimeType (\<lambda>u. None) ''V1StGXR8''
      (SourceFile \<lparr>name = ''cat.jpg'', type' = ''image/jpeg''\<rparr> ''asset-1'' ''blob:1'')
     = Inr ''image/jpeg''"
    by (simp add: resolveMimeType_file)
  have b: "resolveMimeType (\<lambda>u. None) ''V1StGXR8''
      (SourceFile \<lparr>name = ''data'', type' = ''application/octet-stream''\<rparr> ''asset-2'' ''blob:2'')
     = Inr ''application/octet-stream''"
    by (simp add: resolveMimeType_file)
  from uploadingFileDataToAsset_by_mimeType[OF a]
  have c: "uploadingFileDataToAsset (\<lambda>u. None) ''V1StGXR8''
      (SourceFile \<lparr>name = ''cat.jpg'', type' = ''image/jpeg''\<rparr> ''asset-1'' ''blob:1'')
     = Inr \<lparr>id' = ''asset-1'', name' = ''blob:1'', format = Some ''jpeg'',
            type'' = ''image'', description = [], createdAt = [], projectId = [],
            size' = Number 0, meta = ImageMeta NaN NaN\<rparr>"
    by (simp add: startsWith_def)
  from uploadingFileDataToAsset_by_mimeType[OF b]
  have d: "uploadingFileDataToAsset (\<lambda>u. None) ''V1StGXR8''
      (SourceFile \<lparr>name = ''data'', type' = ''application/octet-stream''\<rparr> ''asset-2'' ''blob:2'')
     = Inr \<lparr>id' = ''asset-2'', name' = ''blob:2'', format = Some ''woff2'',
            type'' = ''font'', description = [], createdAt = [], projectId = [],
            size' = Number 0, meta = FontMeta ''system'' ''normal'' (Number 400)\<rparr>"
    by (simp add: startsWith_def)
  from a b c d show ?thesis by blast
qed

text \<open>
  Claim C10.  For a record with a file whose type is the empty string, the resolved
  MIME type is the empty string and not \<open>image/png\<close>: \<open>??\<close> replaces \<open>undefined\<close> only.
  The asset is the font asset with format \<open>woff2\<close>.
\<close>

theorem uploadingFileDataToAsset_empty_type:
  "resolveMimeType newURL nanoid (SourceFile (f\<lparr>type' := []\<rparr>) aid ourl) = Inr [] \<and>
   uploadingFileDataToAsset newURL nanoid (SourceFile (f\<lparr>type' := []\<rparr>) aid ourl) =
     Inr \<lparr>id' = aid, name' = ourl, format = Some ''woff2'',
          type'' = ''font'', description = [], createdAt = [], projectId = [],
          size' = Number 0, meta = FontMeta ''system'' ''normal'' (Number 400)\<rparr>"
  by (simp add: uploadingFileDataToAsset_def resolveMimeType_file startsWith_def Let_def)

theorem uploadingFileDataToAsset_empty_type_witness:
  "uploadingFileDataToAsset (\<lambda>u. None) ''V1StGXR8''
      (SourceFile \<lparr>name = ''upload'', type' = []\<rparr> ''asset-3'' ''blob:3'') =
     Inr \<lparr>id' = ''asset-3'', name' = ''blob:3'', format = Some ''woff2'',
          type'' = ''font'', description = [], createdAt = [], projectId = [],
          size' = Number 0, meta = FontMeta ''system'' ''normal'' (Number 400)\<rparr>"
  using uploadingFileDataToAsset_empty_type[of "\<lambda>u. None" "''V1StGXR8''"
      "\<lparr>name = ''upload'', type' = ''x''\<rparr>" "''asset-3''" "''blob:3''"]
  by simp

section \<open>bufferToHex and the digest functions\<close>

lemma toString16_byte:
  assumes "n < 256"
  shows "toString16 n = (if n < 16 then [hexDigit n] else [hexDigit (n div 16), hexDigit (n mod 16)])"
proof (cases "n < 16")
  case True
  then show ?thesis by (subst toString16.simps) simp
next
  case False
  from assms have "n div 16 < 16" by simp
  then have "toString16 (n div 16) = [hexDigit (n div 16)]"
    by (subst toString16.simps) simp
  with False show ?thesis by (subst toString16.simps) simp
qed

lemma hexDigit_zero: "hexDigit 0 = CHR ''0''"
  by (simp add: hexDigit_def)

text \<open>Each byte gives exactly two digits: the high and the low half.\<close>

lemma padStart_byte:
  "padStart (toString16 (unat (byte :: byte))) 2 ''0''
     = [hexDigit (unat byte div 16), hexDigit (unat byte mod 16)]"
proof -
  have lt: "unat byte < 256"
    using unsigned_less[of byte, where ?'a = nat] by simp
  show ?thesis
  proof (cases "unat byte < 16")
    case True
    then show ?thesis
      by (simp add: toString16_byte[OF lt] padStart_def hexDigit_zero)
  next
    case False
    then show ?thesis
      by (simp add: toString16_byte[OF lt] padStart_def)
  qed
qed

lemma bufferToHex_digits:
  "bufferToHex buffer
     = concat (map (\<lambda>byte. [hexDigit (unat byte div 16), hexDigit (unat byte mod 16)]) buffer)"
  by (simp add: bufferToHex_def padStart_byte)

lemma length_bufferToHex: "length (bufferToHex buffer) = 2 * length buffer"
  unfolding bufferToHex_digits by (induction buffer) auto

lemma hexDigit_range: "n < 16 \<Longrightarrow> hexDigit n \<in> set ''0123456789abcdef''"
  unfolding hexDigit_def by (rule nth_mem) simp

lemma set_bufferToHex: "set (bufferToHex buffer) \<subseteq> set ''0123456789abcdef''"
proof -
  have "hexDigit (unat b div 16) \<in> set ''0123456789abcdef''
      \<and> hexDigit (unat b mod 16) \<in> set ''0123456789abcdef''" for b :: byte
  proof -
    have "unat b < 256" using unsigned_less[of b, where ?'a = nat] by simp
    then have "unat b div 16 < 16" "unat b mod 16 < 16" by simp_all
    then show ?thesis by (blast intro: hexDigit_range)
  qed
  then show ?thesis
    unfolding bufferToHex_digits by (induction buffer) auto
qed

lemma length_bytesOfWord: "length (bytesOfWord w) = 4"
  by (simp add: bytesOfWord_def)

lemma length_digest_SHA256: "length (digest_SHA256 msg) = 32"
  by (simp add: digest_SHA256_def length_bytesOfWord split: prod.splits)

lemma TextEncoder_encode_empty: "TextEncoder_encode [] = []"
  by (simp add: TextEncoder_encode_def)

section \<open>The digest of the empty message\<close>

text \<open>
  The empty message is padded to one block.  The lemmas below evaluate its message
  schedule and the two halves of its 64 rounds, and put the digest together.
\<close>

lemma pad_empty: "pad [] = 128 # replicate 63 0"
  by code_simp

lemma wordsOf_empty: "wordsOf 16 (128 # replicate 63 0) = 2147483648 # replicate 15 0"
  by code_simp

lemma schedule_empty: "schedule 48 (2147483648 # replicate 15 0) =
    [2147483648, 0, 0, 0, 0, 0,
      0, 0, 0, 0, 0, 0,
      0, 0, 0, 0, 2147483648, 0,
      2117632, 0, 570427392, 0, 84448578, 2147483648,
      1476919296, 4235264, 1451269, 1711282176, 3592562048, 337794312,
      3594910044, 3374850048, 3287351444, 676112230, 109604294, 2742808854,
      1904000662, 4274181962, 2813755136, 2165675682, 2561075048, 62000258,
      1562224585, 2975250741, 3286092305, 614207615, 3297584367, 1575308336,
      3741240933, 748767245, 1008022316, 30329261, 369937616, 195877528,
      907775968, 3526495142, 43741191, 1967544444, 133517113, 4161330627,
      3704256008, 1581412744, 1153231965, 996066459]"
  by code_simp

lemma rounds_empty_first:
  "foldl round256 initialHash (take 32 (zip K256 
    [2147483648, 0, 0, 0, 0, 0,
          0, 0, 0, 0, 0, 0,
          0, 0, 0, 0, 2147483648, 0,
          2117632, 0, 570427392, 0, 84448578, 2147483648,
          1476919296, 4235264, 1451269, 1711282176, 3592562048, 337794312,
          3594910044, 3374850048, 3287351444, 676112230, 109604294, 2742808854,
          1904000662, 4274181962, 2813755136, 2165675682, 2561075048, 62000258,
          1562224585, 2975250741, 3286092305, 614207615, 3297584367, 1575308336,
          3741240933, 748767245, 1008022316, 30329261, 369937616, 195877528,
          907775968, 3526495142, 43741191, 1967544444, 133517113, 4161330627,
          3704256008, 1581412744, 1153231965, 996066459])) =
     (300352095, 2696613087, 1926471693, 1690082844, 3151463532, 1447716390, 2957685293, 2506713973)"
  by code_simp

lemma rounds_empty_second:
  "foldl round256 (300352095, 2696613087, 1926471693, 1690082844, 3151463532, 1447716390, 2957685293, 2506713973)
     (drop 32 (zip K256 
    [2147483648, 0, 0, 0, 0, 0,
          0, 0, 0, 0, 0, 0,
          0, 0, 0, 0, 2147483648, 0,
          2117632, 0, 570427392, 0, 84448578, 2147483648,
          1476919296, 4235264, 1451269, 1711282176, 3592562048, 337794312,
          3594910044, 3374850048, 3287351444, 676112230, 109604294, 2742808854,
          1904000662, 4274181962, 2813755136, 2165675682, 2561075048, 62000258,
          1562224585, 2975250741, 3286092305, 614207615, 3297584367, 1575308336,
          3741240933, 748767245, 1008022316, 30329261, 369937616, 195877528,
          907775968, 3526495142, 43741191, 1967544444, 133517113, 4161330627,
          3704256008, 1581412744, 1153231965, 996066459])) =
     (2040978907, 3717492111, 1586299222, 4095722474, 3600805733, 3382061760, 2232532848, 477227836)"
  by code_simp

lemma rounds_empty:
  "foldl round256 initialHash (zip K256 
    [2147483648, 0, 0, 0, 0, 0,
          0, 0, 0, 0, 0, 0,
          0, 0, 0, 0, 2147483648, 0,
          2117632, 0, 570427392, 0, 84448578, 2147483648,
          1476919296, 4235264, 1451269, 1711282176, 3592562048, 337794312,
          3594910044, 3374850048, 3287351444, 676112230, 109604294, 2742808854,
          1904000662, 4274181962, 2813755136, 2165675682, 2561075048, 62000258,
          1562224585, 2975250741, 3286092305, 614207615, 3297584367, 1575308336,
          3741240933, 748767245, 1008022316, 30329261, 369937616, 195877528,
          907775968, 3526495142, 43741191, 1967544444, 133517113, 4161330627,
          3704256008, 1581412744, 1153231965, 996066459]) =
     (2040978907, 3717492111, 1586299222, 4095722474, 3600805733, 3382061760, 2232532848, 477227836)"
proof -
  have "foldl round256 initialHash (zip K256 
    [2147483648, 0, 0, 0, 0, 0,
          0, 0, 0, 0, 0, 0,
          0, 0, 0, 0, 2147483648, 0,
          2117632, 0, 570427392, 0, 84448578, 2147483648,
          1476919296, 4235264, 1451269, 1711282176, 3592562048, 337794312,
          3594910044, 3374850048, 3287351444, 676112230, 109604294, 2742808854,
          1904000662, 4274181962, 2813755136, 2165675682, 2561075048, 62000258,
          1562224585, 2975250741, 3286092305, 614207615, 3297584367, 1575308336,
          3741240933, 748767245, 1008022316, 30329261, 369937616, 195877528,
          907775968, 3526495142, 43741191, 1967544444, 133517113, 4161330627,
          3704256008, 1581412744, 1153231965, 996066459]) =
        foldl round256 initialHash
          (take 32 (zip K256 
    [2147483648, 0, 0, 0, 0, 0,
          0, 0, 0, 0, 0, 0,
          0, 0, 0, 0, 2147483648, 0,
          2117632, 0, 570427392, 0, 84448578, 2147483648,
          1476919296, 4235264, 1451269, 1711282176, 3592562048, 337794312,
          3594910044, 3374850048, 3287351444, 676112230, 109604294, 2742808854,
          1904000662, 4274181962, 2813755136, 2165675682, 2561075048, 62000258,
          1562224585, 2975250741, 3286092305, 614207615, 3297584367, 1575308336,
          3741240933, 748767245, 1008022316, 30329261, 369937616, 195877528,
          907775968, 3526495142, 43741191, 1967544444, 133517113, 4161330627,
          3704256008, 1581412744, 1153231965, 996066459]) @ drop 32 (zip K256 
    [2147483648, 0, 0, 0, 0, 0,
          0, 0, 0, 0, 0, 0,
          0, 0, 0, 0, 2147483648, 0,
          2117632, 0, 570427392, 0, 84448578, 2147483648,
          1476919296, 4235264, 1451269, 1711282176, 3592562048, 337794312,
          3594910044, 3374850048, 3287351444, 676112230, 109604294, 2742808854,
          1904000662, 4274181962, 2813755136, 2165675682, 2561075048, 62000258,
          1562224585, 2975250741, 3286092305, 614207615, 3297584367, 1575308336,
          3741240933, 748767245, 1008022316, 30329261, 369937616, 195877528,
          907775968, 3526495142, 43741191, 1967544444, 133517113, 4161330627,
          3704256008, 1581412744, 1153231965, 996066459]))"
    by simp
  also have "\<dots> = foldl round256 (foldl round256 initialHash (take 32 (zip K256 
    [2147483648, 0, 0, 0, 0, 0,
          0, 0, 0, 0, 0, 0,
          0, 0, 0, 0, 2147483648, 0,
          2117632, 0, 570427392, 0, 84448578, 2147483648,
          1476919296, 4235264, 1451269, 1711282176, 3592562048, 337794312,
          3594910044, 3374850048, 3287351444, 676112230, 109604294, 2742808854,
          1904000662, 4274181962, 2813755136, 2165675682, 2561075048, 62000258,
          1562224585, 2975250741, 3286092305, 614207615, 3297584367, 1575308336,
          3741240933, 748767245, 1008022316, 30329261, 369937616, 195877528,
          907775968, 3526495142, 43741191, 1967544444, 133517113, 4161330627,
          3704256008, 1581412744, 1153231965, 996066459])))
          (drop 32 (zip K256 
    [2147483648, 0, 0, 0, 0, 0,
          0, 0, 0, 0, 0, 0,
          0, 0, 0, 0, 2147483648, 0,
          2117632, 0, 570427392, 0, 84448578, 2147483648,
          1476919296, 4235264, 1451269, 1711282176, 3592562048, 337794312,
          3594910044, 3374850048, 3287351444, 676112230, 109604294, 2742808854,
          1904000662, 4274181962, 2813755136, 2165675682, 2561075048, 62000258,
          1562224585, 2975250741, 3286092305, 614207615, 3297584367, 1575308336,
          3741240933, 748767245, 1008022316, 30329261, 369937616, 195877528,
          907775968, 3526495142, 43741191, 1967544444, 133517113, 4161330627,
          3704256008, 1581412744, 1153231965, 996066459]))"
    by (rule foldl_append)
  finally show ?thesis
    by (simp only: rounds_empty_first rounds_empty_second)
qed

lemma addHash_empty:
  "addHash initialHash (2040978907, 3717492111, 1586299222, 4095722474, 3600805733, 3382061760, 2232532848, 477227836) =
     (3820012610, 2566659092, 2600203464, 2574235940, 665731556, 1687917388, 2761267483, 2018687061)"
  by code_simp

lemma compress_empty:
  "compress initialHash (128 # replicate 63 0) =
     (3820012610, 2566659092, 2600203464, 2574235940, 665731556, 1687917388, 2761267483, 2018687061)"
  by (simp only: compress_def wordsOf_empty schedule_empty rounds_empty addHash_empty)

lemma bytes_empty:
  "concat (map bytesOfWord
     [3820012610, 2566659092, 2600203464, 2574235940,
      665731556, 1687917388, 2761267483, 2018687061]) =
     [227, 176, 196, 66, 152, 252, 28, 20, 154, 251, 244, 200,
      153, 111, 185, 36, 39, 174, 65, 228, 100, 155, 147, 76,
      164, 149, 153, 27, 120, 82, 184, 85]"
  by code_simp

lemma digest_SHA256_empty:
  "digest_SHA256 [] =
     [227, 176, 196, 66, 152, 252, 28, 20, 154, 251, 244, 200,
      153, 111, 185, 36, 39, 174, 65, 228, 100, 155, 147, 76,
      164, 149, 153, 27, 120, 82, 184, 85]"
proof -
  have "blocksOf (length (pad []) div 64) (pad []) = [128 # replicate 63 0]"
    by (simp add: pad_empty)
  then have "digest_SHA256 [] =
      concat (map bytesOfWord
        [3820012610, 2566659092, 2600203464, 2574235940,
         665731556, 1687917388, 2761267483, 2018687061])"
    by (simp only: digest_SHA256_def foldl_Cons foldl_Nil compress_empty prod.case)
  then show ?thesis
    by (simp only: bytes_empty)
qed

lemma bufferToHex_empty_digest:
  "bufferToHex
     [227, 176, 196, 66, 152, 252, 28, 20, 154, 251, 244, 200,
      153, 111, 185, 36, 39, 174, 65, 228, 100, 155, 147, 76,
      164, 149, 153, 27, 120, 82, 184, 85] =
     ''e3b0c44298fc1c149afbf4c8996fb92427ae41e4649b934ca495991b7852b855''"
  by code_simp

text \<open>
  Claim C8.  \<open>getSha256Hash\<close> encodes the string as UTF-8, takes the SHA-256 digest of
  the bytes and writes every byte of it as two hexadecimal digits, the high half
  first, in lower case: 64 characters in all.  For the empty string the result is
  \<open>e3b0c442...7852b855\<close>.
\<close>

theorem getSha256Hash_hex:
  "getSha256Hash data =
     concat (map (\<lambda>byte. [hexDigit (unat byte div 16), hexDigit (unat byte mod 16)])
       (digest_SHA256 (TextEncoder_encode data))) \<and>
   length (getSha256Hash data) = 64 \<and>
   set (getSha256Hash data) \<subseteq> set ''0123456789abcdef'' \<and>
   getSha256Hash [] = ''e3b0c44298fc1c149afbf4c8996fb92427ae41e4649b934ca495991b7852b855''"
proof (intro conjI)
  show "getSha256Hash data =
     concat (map (\<lambda>byte. [hexDigit (unat byte div 16), hexDigit (unat byte mod 16)])
       (digest_SHA256 (TextEncoder_encode data)))"
    by (simp only: getSha256Hash_def bufferToHex_digits)
  show "length (getSha256Hash data) = 64"
    by (simp add: getSha256Hash_def length_bufferToHex length_digest_SHA256)
  show "set (getSha256Hash data) \<subseteq> set ''0123456789abcdef''"
    unfolding getSha256Hash_def by (rule set_bufferToHex)
  show "getSha256Hash [] = ''e3b0c44298fc1c149afbf4c8996fb92427ae41e4649b934ca495991b7852b855''"
    by (simp only: getSha256Hash_def TextEncoder_encode_empty digest_SHA256_empty
        bufferToHex_empty_digest)
qed

theorem getSha256Hash_hex_witness:
  "length (getSha256Hash []) = 64 \<and>
   getSha256Hash [] = ''e3b0c44298fc1c149afbf4c8996fb92427ae41e4649b934ca495991b7852b855''"
  using getSha256Hash_hex[of "[]"] by blast

text \<open>
  Claim C9.  When the read of the file ends with an error, \<open>getSha256HashOfFile\<close> is
  rejected with that very error, after the one read it started: what a second read
  would give plays no part.  When the read ends with the bytes, the result is the
  hexadecimal SHA-256 digest of those bytes.
\<close>

theorem getSha256HashOfFile_outcome:
  "(readAsArrayBuffer reads file = Error e \<longrightarrow>
      getSha256HashOfFile readAsArrayBuffer file reads = (Inl e, Suc reads)) \<and>
   (readAsArrayBuffer reads file = Load bytes \<longrightarrow>
      getSha256HashOfFile readAsArrayBuffer file reads =
        (Inr (bufferToHex (digest_SHA256 bytes)), Suc reads))"
  by (simp add: getSha256HashOfFile_def readFileAsArrayBuffer_def)

theorem getSha256HashOfFile_outcome_witness:
  "(\<lambda>n f. if n = 0 then Error (DOMException ''NotReadableError'') else Load []) 0
      \<lparr>name = ''a.png'', type' = ''image/png''\<rparr> = Error (DOMException ''NotReadableError'') \<and>
   getSha256HashOfFile (\<lambda>n f. if n = 0 then Error (DOMException ''NotReadableError'') else Load [])
      \<lparr>name = ''a.png'', type' = ''image/png''\<rparr> 0
     = (Inl (DOMException ''NotReadableError''), Suc 0) \<and>
   (\<lambda>n f. Load []) 0 \<lparr>name = ''a.png'', type' = ''image/png''\<rparr> = Load [] \<and>
   getSha256HashOfFile (\<lambda>n f. Load []) \<lparr>name = ''a.png'', type' = ''image/png''\<rparr> 0
     = (Inr ''e3b0c44298fc1c149afbf4c8996fb92427ae41e4649b934ca495991b7852b855'', Suc 0)"
proof -
  have a: "getSha256HashOfFile (\<lambda>n f. if n = 0 then Error (DOMException ''NotReadableError'') else Load [])
      \<lparr>name = ''a.png'', type' = ''image/png''\<rparr> 0
     = (Inl (DOMException ''NotReadableError''), Suc 0)"
    using getSha256HashOfFile_outcome[of
        "\<lambda>n f. if n = 0 then Error (DOMException ''NotReadableError'') else Load []" 0
        "\<lparr>name = ''a.png'', type' = ''image/png''\<rparr>" "DOMException ''NotReadableError''"]
    by simp
  have "getSha256HashOfFile (\<lambda>n f. Load []) \<lparr>name = ''a.png'', type' = ''image/png''\<rparr> 0
     = (Inr (bufferToHex (digest_SHA256 [])), Suc 0)"
    using getSha256HashOfFile_outcome[of "\<lambda>n f. Load []" 0
        "\<lparr>name = ''a.png'', type' = ''image/png''\<rparr>" _ "[]"]
    by simp
  then have b: "getSha256HashOfFile (\<lambda>n f. Load []) \<lparr>name = ''a.png'', type' = ''image/png''\<rparr> 0
     = (Inr ''e3b0c44298fc1c149afbf4c8996fb92427ae41e4649b934ca495991b7852b855'', Suc 0)"
    by (simp only: digest_SHA256_empty bufferToHex_empty_digest)
  from a b show ?thesis by simp
qed

section \<open>Further properties\<close>

lemma findExtension_no_params:
  assumes "searchParams u = []" and "set exts \<subseteq> set imageExtensions"
  shows "findExtension u basename exts (None, None) =
           (case find (\<lambda>ext. endsWith basename ext) exts of
              None \<Rightarrow> (None, None, None)
            | Some ext \<Rightarrow> (Some ext, Some basename, None))"
  using assms(2)
proof (induction exts)
  case Nil
  show ?case by simp
next
  case (Cons e exts)
  then have "e \<in> set imageExtensions" by simp
  from mapGet_imageExtension[OF this] obtain m where "mapGet imageExtensionToMime e = Some m"
    by blast
  then have "findCallback u basename e (None, None) =
      (if endsWith basename e then (True, Some basename, None) else (False, None, None))"
    by (simp add: findCallback_def searchParamsLoop_def searchParams_keys_def assms(1)
        optEndsWith_def)
  with Cons show ?case by simp
qed

text \<open>
  A structured URL without query parameters whose base name ends with an extension
  of the table: the base name is the file name and the table gives the MIME type.
\<close>

theorem getImageNameAndType_no_params:
  assumes "searchParams u = []" and "ext \<in> set imageExtensions"
    and "endsWith (basenameOf u) ext"
  shows "\<exists>mimeType. mapGet imageExtensionToMime ext = Some mimeType \<and>
           getImageNameAndType nanoid (Url u) defaultExtension = (Some (basenameOf u), Some mimeType)"
proof -
  have "scanURL u = (Some ext, Some (basenameOf u), None)"
    unfolding scanURL_def
    by (simp add: findExtension_no_params[OF assms(1)] find_endsWith_unique[OF assms(2,3)])
  moreover have "nullish (Some ext) defaultExtension = Some ext" by (simp add: nullish_def)
  ultimately show ?thesis
    using getImageNameAndType_Url_resolved[of u "Some ext" "Some (basenameOf u)" None
        defaultExtension ext nanoid] assms(2)
    by simp
qed

theorem getImageNameAndType_no_params_witness:
  "searchParams \<lparr>pathname = ''/img/pic.gif'', searchParams = []\<rparr> = [] \<and>
   ''.gif'' \<in> set imageExtensions \<and>
   endsWith (basenameOf \<lparr>pathname = ''/img/pic.gif'', searchParams = []\<rparr>) ''.gif'' \<and>
   getImageNameAndType ''V1StGXR8'' (Url \<lparr>pathname = ''/img/pic.gif'', searchParams = []\<rparr>) None
     = (Some ''pic.gif'', Some ''image/gif'')"
proof -
  have a: "searchParams \<lparr>pathname = ''/img/pic.gif'', searchParams = []\<rparr> = []" by simp
  have b: "''.gif'' \<in> set imageExtensions" by (simp add: imageExtensions_eq)
  have c: "basenameOf \<lparr>pathname = ''/img/pic.gif'', searchParams = []\<rparr> = ''pic.gif''"
    by code_simp
  have d: "endsWith (basenameOf \<lparr>pathname = ''/img/pic.gif'', searchParams = []\<rparr>) ''.gif''"
    unfolding c by (simp add: endsWith_def)
  have e: "mapGet imageExtensionToMime ''.gif'' = Some ''image/gif''"
    by (simp add: mapGet_def imageExtensionToMime_def)
  from getImageNameAndType_no_params[OF a b d, of "''V1StGXR8''" None] c e
  have "getImageNameAndType ''V1StGXR8'' (Url \<lparr>pathname = ''/img/pic.gif'', searchParams = []\<rparr>) None
     = (Some ''pic.gif'', Some ''image/gif'')"
    by auto
  with a b d show ?thesis by blast
qed

text \<open>The MIME type returned never depends on the identifier \<open>nanoid()\<close> makes.\<close>

theorem getImageNameAndType_mimeType_nanoid:
  "snd (getImageNameAndType nanoid input defaultExtension)
     = snd (getImageNameAndType nanoid' input defaultExtension)"
  by (cases input)
    (auto simp: getImageNameAndType_def Let_def split: prod.splits option.splits)

text \<open>
  When \<open>new URL\<close> throws on the URL of a record, \<open>uploadingFileDataToAsset\<close> throws:
  no asset is returned.
\<close>

theorem uploadingFileDataToAsset_invalid_url:
  assumes "newURL u = None"
  shows "uploadingFileDataToAsset newURL nanoid (SourceUrl u aid ourl) = Inl (TypeError ''Invalid URL'')"
  using assms by (simp add: uploadingFileDataToAsset_def resolveMimeType_def)

theorem uploadingFileDataToAsset_invalid_url_witness:
  "(\<lambda>u. None :: URL option) ''not a url'' = None \<and>
   uploadingFileDataToAsset (\<lambda>u. None) ''V1StGXR8'' (SourceUrl ''not a url'' ''asset-4'' ''blob:4'')
     = Inl (TypeError ''Invalid URL'')"
  using uploadingFileDataToAsset_invalid_url[of "\<lambda>u. None" "''not a url''" "''V1StGXR8''"
      "''asset-4''" "''blob:4''"]
  by simp

text \<open>For a \<open>File\<close>, \<open>getImageName\<close> and \<open>getImageType\<close> return its own name and type.\<close>

theorem getImage_of_File:
  "getImageName nanoid (FromFile f) = Some (name f) \<and>
   getImageType nanoid (FromFile f) = Some (type' f)"
  by (simp add: getImageName_def getImageType_def)

end
